theory Spec2Isabelle
  imports Complex_Main
begin

section \<open>Data model of ReactBubbleChartD3\<close>

text \<open>
  JavaScript numbers are modelled as real numbers: every comparison and every arithmetic
  expression of the source is written out as it stands, over \<open>real\<close>. The thresholds of
  the colour scale, where the bucket of a value depends on the last bit, are rounded as
  doubles are. A property that may be \<open>undefined\<close> is an \<open>option\<close>.

  A data item (\<open>d.data\<close>) carries \<open>_id\<close>, \<open>colorValue\<close>, \<open>selected\<close> and
  \<open>displayText\<close>; the synthetic root \<open>{ children: data }\<close> that \<open>update\<close> wraps
  around an array has none of them, so its \<open>_id\<close> is \<open>undefined\<close>.
\<close>

record datum =
  data_id :: "string option"
  colorValue :: "real option"
  selected :: bool
  displayText :: "string option"

text \<open>
  A layout node, as \<open>d3.pack\<close> returns it: the data item, the centre \<open>x, y\<close>, the
  radius \<open>r\<close>, and whether \<open>d.children\<close> is set.
\<close>

record node =
  data :: datum
  node_x :: real
  node_y :: real
  node_r :: real
  children :: bool

text \<open>The exceptions the modelled code can raise.\<close>

datatype js_error = RangeError | TypeError

text \<open>JavaScript truthiness of an optional string: \<open>undefined\<close> and \<open>''\<close> are falsy.\<close>

definition truthy :: "string option \<Rightarrow> bool" where
  "truthy s = (case s of None \<Rightarrow> False | Some v \<Rightarrow> v \<noteq> [])"

section \<open>The tooltip\<close>

datatype side = SideLeft | SideRight

datatype display = DisplayNone | DisplayBlock

text \<open>\<open>this.tooltipMode\<close>: \<open>'func'\<close>, \<open>'component'\<close> or \<open>'none'\<close>.\<close>

datatype tooltip_mode = ModeFunc | ModeComponent | ModeNone

text \<open>
  The inline style of the tooltip element: \<open>display\<close>, the class \<open>left\<close>/\<open>right\<close>,
  and \<open>width\<close>, \<open>left\<close>, \<open>top\<close> in pixels (\<open>None\<close> is the empty string that
  \<open>_hideTooltip\<close> writes).
\<close>

record tooltip_style =
  tt_display :: display
  tt_side :: "side option"
  tt_width :: "real option"
  tt_left :: "real option"
  tt_top :: "real option"

text \<open>
  The part of \<open>this\<close> that the tooltip methods read: \<open>this.props.tooltippedDataId\<close>,
  \<open>this.tooltipMargin\<close>, \<open>this.tooltipMode\<close>, whether \<open>this.tooltipProps\<close> has ever
  been set (\<open>configureTooltip\<close> sets it only when a tooltip is asked for in mode
  \<open>func\<close>), the measured boxes of the container, of \<open>this.html\<close> and of the tooltip
  element, the data bound to \<open>this.circles\<close> (update and enter selections), and the
  tooltip's style.
\<close>

record chart =
  tooltippedDataId :: "string option"
  tooltipMargin :: real
  tooltipMode :: tooltip_mode
  tooltipProps_set :: bool
  container_offsetWidth :: real
  container_offsetHeight :: real
  html_offsetLeft :: real
  html_offsetTop :: real
  tooltip_offsetWidth :: real
  tooltip_offsetHeight :: real
  circles_data :: "node list"
  circles_enter_data :: "node list"
  tooltip :: tooltip_style

text \<open>
  \<open>findNodeByDataId(id)\<close>:
  \<^verbatim>\<open>this.circles.data().concat(this.circles.enter().data()).find(d => d.data._id === id)\<close>
\<close>

definition findNodeByDataId :: "chart \<Rightarrow> string \<Rightarrow> node option" where
  "findNodeByDataId ch i =
     List.find (\<lambda>d. data_id (data d) = Some i) (circles_data ch @ circles_enter_data ch)"

text \<open>
  The body of \<open>adjustTooltipPosition\<close> after its guard: the placement computed for the
  node \<open>d\<close>. The branches and their order are the source's.
\<close>

record placement =
  p_width :: real
  p_top :: real
  p_left :: real
  p_side :: side

definition tooltipPlacement :: "chart \<Rightarrow> node \<Rightarrow> placement" where
  "tooltipPlacement ch d =
    (let width = tooltip_offsetWidth ch + 1;
         height = tooltip_offsetHeight ch;
         margin = tooltipMargin ch;
         origin_x = html_offsetLeft ch;
         origin_y = html_offsetTop ch;
         top = (if origin_y + node_y d - height < 0 then margin
                else if origin_y + node_y d + height / 2 > container_offsetHeight ch
                  then container_offsetHeight ch - height - margin
                else node_y d - height / 2);
         lr = (if origin_x + node_x d + node_r d + width + margin < container_offsetWidth ch
                 then (node_x d + node_r d + margin, SideRight)
               else if origin_x + node_x d - node_r d - width - margin > 0
                 then (node_x d - node_r d - width - margin, SideLeft)
               else (container_offsetWidth ch - width - margin, SideRight))
     in \<lparr>p_width = width, p_top = top, p_left = fst lr, p_side = snd lr\<rparr>)"

text \<open>
  \<open>adjustTooltipPosition\<close>: without a truthy \<open>tooltippedDataId\<close>, or when no node of
  the current generation has that id, it returns before touching the tooltip.
\<close>

definition targetNode :: "chart \<Rightarrow> node option" where
  "targetNode ch =
     (case tooltippedDataId ch of
        None \<Rightarrow> None
      | Some i \<Rightarrow> if i = [] then None else findNodeByDataId ch i)"

definition adjustTooltipPosition :: "chart \<Rightarrow> chart" where
  "adjustTooltipPosition ch =
     (case targetNode ch of
        None \<Rightarrow> ch
      | Some d \<Rightarrow>
          (let p = tooltipPlacement ch d
           in ch\<lparr>tooltip := (tooltip ch)\<lparr>tt_side := Some (p_side p),
                                          tt_width := Some (p_width p),
                                          tt_left := Some (p_left p),
                                          tt_top := Some (p_top p)\<rparr>\<rparr>))"

definition hideTooltip :: "chart \<Rightarrow> chart" where
  "hideTooltip ch =
     ch\<lparr>tooltip := (tooltip ch)\<lparr>tt_display := DisplayNone, tt_width := None,
                                tt_top := None, tt_left := None\<rparr>\<rparr>"

text \<open>
  \<open>_showTooltip(d)\<close>: in mode \<open>func\<close> the caller's \<open>tooltipFunc\<close> may veto the
  tooltip by returning \<open>false\<close> (the flag \<open>vetoed\<close>). Outside mode \<open>component\<close> it
  then iterates over \<open>this.tooltipProps\<close>, which raises a TypeError when that was never
  set. Otherwise the tooltip is displayed and positioned. The colours and the inner HTML
  it also writes are left out.
\<close>

definition showTooltip :: "bool \<Rightarrow> chart \<Rightarrow> js_error + chart" where
  "showTooltip vetoed ch =
     (if tooltipMode ch = ModeFunc \<and> vetoed then Inr ch
      else if tooltipMode ch \<noteq> ModeComponent \<and> \<not> tooltipProps_set ch then Inl TypeError
      else Inr (adjustTooltipPosition (ch\<lparr>tooltip := (tooltip ch)\<lparr>tt_display := DisplayBlock\<rparr>\<rparr>)))"

text \<open>
  \<open>_updateTooltip(tooltippedDataId, prevTooltippedDataId, data, prevData)\<close>;
  \<open>sameData\<close> is the outcome of the reference comparison \<open>data === prevData\<close>.
\<close>

definition updateTooltip ::
  "string option \<Rightarrow> string option \<Rightarrow> bool \<Rightarrow> bool \<Rightarrow> chart \<Rightarrow> js_error + chart" where
  "updateTooltip tid prevTid sameData vetoed ch =
     (if tid = prevTid \<and> sameData then Inr ch
      else
        (let tooltippedNode =
               (case tid of None \<Rightarrow> None
                | Some i \<Rightarrow> if i = [] then None else findNodeByDataId ch i)
         in case tooltippedNode of
              None \<Rightarrow> Inr (hideTooltip ch)
            | Some d \<Rightarrow> showTooltip vetoed (hideTooltip ch)))"

text \<open>
  The end of \<open>update\<close>: \<open>this._updateTooltip(...)\<close>, then, unless that raised,
  \<open>this.adjustTooltipPosition()\<close>.
\<close>

definition update_tooltip ::
  "string option \<Rightarrow> string option \<Rightarrow> bool \<Rightarrow> bool \<Rightarrow> chart \<Rightarrow> js_error + chart" where
  "update_tooltip tid prevTid sameData vetoed ch =
     (case updateTooltip tid prevTid sameData vetoed ch of
        Inl e \<Rightarrow> Inl e
      | Inr ch' \<Rightarrow> Inr (adjustTooltipPosition ch'))"

section \<open>The quantized colour scale\<close>

text \<open>
  \<open>update\<close> builds \<open>this.color\<close> and \<open>this.textColor\<close> with
  \<^verbatim>\<open>d3.scaleQuantize().domain([min, max]).range(colors)\<close>. The scale is d3's
  (d3-scale, the version 4 and 5 API the source calls); it is modelled as d3 implements it:
  \<^verbatim>\<open>
  function scale(x) { if (x <= x) return range[bisect(domain, x, 0, n)]; }
  function rescale() {
    var i = -1;
    domain = new Array(n);
    while (++i < n) domain[i] = ((i + 1) * x1 - (i - n) * x0) / (n + 1);
    return scale;
  }
  scale.domain = function(_) { ... x0 = +_[0], x1 = +_[1], rescale() ... };
  scale.range = function(_) { ... n = (range = slice.call(_)).length - 1, rescale() ... };
  \<close>
  where \<open>bisect\<close> is d3-array's \<open>bisectRight\<close>:
  \<^verbatim>\<open>
  while (lo < hi) {
    var mid = lo + hi >>> 1;
    if (compare(a[mid], x) > 0) hi = mid;
    else lo = mid + 1;
  }
  return lo;
  \<close>
  The only division is by \<open>n + 1\<close>, the number of colours.
\<close>

text \<open>
  d3 computes the thresholds in IEEE 754 double arithmetic: each product, the difference
  and the quotient are rounded to the nearest double, ties to even. \<open>round_double\<close> is
  that rounding, for a real whose rounded value is finite: with \<open>e\<close> the binary exponent
  of \<open>x\<close> (at least -1022, below which the doubles are subnormal), the doubles around
  \<open>x\<close> are the multiples of \<open>2 ^ (e - 52)\<close>, and \<open>rne\<close> picks the nearest multiple, the
  even one on a tie. The counters \<open>i + 1\<close>, \<open>i - n\<close> and \<open>n + 1\<close> are integers and exact.
\<close>

definition rne :: "real \<Rightarrow> int" where
  "rne y =
     (let f = \<lfloor>y\<rfloor>; r = y - of_int f
      in if r < 1 / 2 then f
         else if 1 / 2 < r then f + 1
         else if even f then f else f + 1)"

definition ulp_exp :: "real \<Rightarrow> int" where
  "ulp_exp x = max \<lfloor>log 2 \<bar>x\<bar>\<rfloor> (- 1022) - 52"

definition round_double :: "real \<Rightarrow> real" where
  "round_double x =
     (if x = 0 then 0 else of_int (rne (x / 2 powi ulp_exp x)) * 2 powi ulp_exp x)"

text \<open>\<open>domain[i] = ((i + 1) * x1 - (i - n) * x0) / (n + 1)\<close>, operation by operation.\<close>

definition threshold :: "real \<Rightarrow> real \<Rightarrow> nat \<Rightarrow> nat \<Rightarrow> real" where
  "threshold x0 x1 n i =
     round_double
       (round_double (round_double ((real i + 1) * x1) - round_double ((real i - real n) * x0))
        / (real n + 1))"

definition thresholds :: "real \<Rightarrow> real \<Rightarrow> nat \<Rightarrow> real list" where
  "thresholds x0 x1 n = map (threshold x0 x1 n) [0..<n]"

function bisectRight :: "real list \<Rightarrow> real \<Rightarrow> nat \<Rightarrow> nat \<Rightarrow> nat" where
  "bisectRight a x lo hi =
     (if lo < hi
      then (let mid = (lo + hi) div 2
            in if a ! mid > x then bisectRight a x lo mid
               else bisectRight a x (mid + 1) hi)
      else lo)"
  by pat_completeness auto
termination
  by (relation "measure (\<lambda>(a, x, lo, hi). hi - lo)") auto

declare bisectRight.simps [simp del]

record 'a quantize =
  q_domain :: "real list"
  q_range :: "'a list"

text \<open>
  \<open>scaleQuantize().domain([x0, x1]).range(colors)\<close>. With no colour at all \<open>n\<close> is
  \<open>-1\<close> and \<open>new Array(n)\<close> throws a RangeError.
\<close>

definition scaleQuantize :: "real \<Rightarrow> real \<Rightarrow> 'a list \<Rightarrow> js_error + 'a quantize" where
  "scaleQuantize x0 x1 colors =
     (if colors = [] then Inl RangeError
      else Inr \<lparr>q_domain = thresholds x0 x1 (length colors - 1), q_range = colors\<rparr>)"

text \<open>The bucket a number falls into, and the scale applied to a \<open>colorValue\<close>.\<close>

definition bucket :: "'a quantize \<Rightarrow> real \<Rightarrow> nat" where
  "bucket q x = bisectRight (q_domain q) x 0 (length (q_domain q))"

definition scale :: "'a quantize \<Rightarrow> real option \<Rightarrow> 'a option" where
  "scale q v =
     (case v of
        None \<Rightarrow> None
      | Some x \<Rightarrow> if bucket q x < length (q_range q) then Some (q_range q ! bucket q x) else None)"

text \<open>
  The bucket the specification states for a palette of \<open>N\<close> colours:
  \<open>floor(N * (v - min) / (max - min))\<close> clamped to \<open>[0, N - 1]\<close>.
\<close>

definition spec_bucket :: "real \<Rightarrow> real \<Rightarrow> nat \<Rightarrow> real \<Rightarrow> nat" where
  "spec_bucket lo hi N v =
     nat (max 0 (min (int N - 1) \<lfloor>real N * (v - lo) / (hi - lo)\<rfloor>))"


section \<open>Configuration and colours of a node\<close>

text \<open>The fields of \<open>this\<close> that the constructor and \<open>adjustSize\<close> set.\<close>

record config =
  selectedColor :: "string option"
  selectedTextColor :: "string option"
  smallDiameter :: real
  mediumDiameter :: real
  fontSizeFactor :: "real option"
  duration :: real
  delay :: real
  diameter :: real

record props =
  props_selectedColor :: "string option"
  props_selectedTextColor :: "string option"
  props_smallDiameter :: "real option"
  props_mediumDiameter :: "real option"
  props_fontSizeFactor :: "real option"
  props_duration :: "real option"
  props_delay :: "real option"

text \<open>\<open>v || dflt\<close> on an optional number: \<open>undefined\<close> and \<open>0\<close> are falsy.\<close>

definition or_default :: "real option \<Rightarrow> real \<Rightarrow> real" where
  "or_default v dflt = (case v of None \<Rightarrow> dflt | Some n \<Rightarrow> if n = 0 then dflt else n)"

text \<open>
  The constructor; \<open>offsetWidth\<close> and \<open>offsetHeight\<close> are the container's, from which
  \<open>adjustSize\<close> takes the diameter.
\<close>

definition constructor :: "props \<Rightarrow> real \<Rightarrow> real \<Rightarrow> config" where
  "constructor p offsetWidth offsetHeight =
     \<lparr>selectedColor = props_selectedColor p,
      selectedTextColor = props_selectedTextColor p,
      smallDiameter = or_default (props_smallDiameter p) 40,
      mediumDiameter = or_default (props_mediumDiameter p) 115,
      fontSizeFactor = props_fontSizeFactor p,
      duration = (case props_duration p of None \<Rightarrow> 500 | Some v \<Rightarrow> v),
      delay = (case props_delay p of None \<Rightarrow> 7 | Some v \<Rightarrow> v),
      diameter = min offsetWidth offsetHeight\<rparr>"

definition getCircleColor :: "config \<Rightarrow> string quantize \<Rightarrow> node \<Rightarrow> string option" where
  "getCircleColor cfg color d =
     (if selected (data d) \<and> truthy (selectedColor cfg) then selectedColor cfg
      else scale color (colorValue (data d)))"

definition getLabelColor :: "config \<Rightarrow> string quantize \<Rightarrow> node \<Rightarrow> string option" where
  "getLabelColor cfg textColor d =
     (if selected (data d) \<and> truthy (selectedTextColor cfg) then selectedTextColor cfg
      else scale textColor (colorValue (data d)))"

text \<open>
  The fill of the legacy variant of the engine (the second class of the file):
  \<^verbatim>\<open>d.data.selected ? this.selectedColor : color(d.data.colorValue)\<close>
\<close>

definition legacy_fill :: "config \<Rightarrow> string quantize \<Rightarrow> node \<Rightarrow> string option" where
  "legacy_fill cfg color d =
     (if selected (data d) then selectedColor cfg else scale color (colorValue (data d)))"

definition getLabelClass :: "config \<Rightarrow> node \<Rightarrow> string" where
  "getLabelClass cfg d =
     (let size = (if 2 * node_r d < smallDiameter cfg then ''small''
                  else if 2 * node_r d < mediumDiameter cfg then ''medium''
                  else ''large'')
      in ''bubble-label '' @ size @ (if selected (data d) then '' selected'' else []))"

section \<open>The keyed data join\<close>

text \<open>
  \<open>update\<close> reconciles the elements on screen with the new generation by
  \<^verbatim>\<open>selectAll(...).data(this.bubble(nodes).descendants(), d => 'g' + d.data._id)\<close>.
  The key of a node is the string \<open>'g' + d.data._id\<close>; an undefined \<open>_id\<close> prints as
  \<open>undefined\<close>.
\<close>

definition key :: "node \<Rightarrow> string" where
  "key d = CHR ''g'' # (case data_id (data d) of None \<Rightarrow> ''undefined'' | Some i \<Rightarrow> i)"

text \<open>
  The join is d3-selection's \<open>bindKey\<close>, modelled as d3 implements it, in its three loops:
  \<^verbatim>\<open>
  for (i = 0; i < groupLength; ++i) {
    if (node = group[i]) {
      keyValues[i] = keyValue = keyPrefix + key.call(node, node.__data__, i, group);
      if (keyValue in nodeByKeyValue) exit[i] = node;
      else nodeByKeyValue[keyValue] = node;
    }
  }
  for (i = 0; i < dataLength; ++i) {
    keyValue = keyPrefix + key.call(parent, data[i], i, data);
    if (node = nodeByKeyValue[keyValue]) {
      update[i] = node; node.__data__ = data[i]; nodeByKeyValue[keyValue] = null;
    } else {
      enter[i] = new EnterNode(parent, data[i]);
    }
  }
  for (i = 0; i < groupLength; ++i) {
    if ((node = group[i]) && (nodeByKeyValue[keyValues[i]] === node)) exit[i] = node;
  }
  \<close>
  An element is named by its index in the group; \<open>elems\<close> below is the data bound to
  the elements of the group. \<open>bind_nodes\<close> is the first loop: it returns
  \<open>nodeByKeyValue\<close> and, for each element, whether the loop put it into \<open>exit\<close> as a
  duplicate. \<open>bind_data\<close> is the second loop: for each datum, the element it updates,
  if any. The third loop is the \<open>j_exit\<close> of \<open>bindKey\<close>.
\<close>

fun bind_nodes :: "string list \<Rightarrow> nat \<Rightarrow> (string \<rightharpoonup> nat) \<Rightarrow> (string \<rightharpoonup> nat) \<times> bool list" where
  "bind_nodes [] i m = (m, [])"
| "bind_nodes (k # ks) i m =
     (if m k \<noteq> None
      then (let (m', ex) = bind_nodes ks (Suc i) m in (m', True # ex))
      else (let (m', ex) = bind_nodes ks (Suc i) (m(k \<mapsto> i)) in (m', False # ex)))"

fun bind_data :: "string list \<Rightarrow> (string \<rightharpoonup> nat) \<Rightarrow> (string \<rightharpoonup> nat) \<times> nat option list" where
  "bind_data [] m = (m, [])"
| "bind_data (k # ks) m =
     (case m k of
        Some j \<Rightarrow> (let (m', us) = bind_data ks (m(k := None)) in (m', Some j # us))
      | None \<Rightarrow> (let (m', us) = bind_data ks m in (m', None # us)))"

text \<open>
  The three selections, as d3 keeps them: \<open>update\<close> and \<open>enter\<close> have one slot for each
  datum, \<open>exit\<close> one slot for each element. An updated element is given with the datum it
  was bound to and the datum it is bound to now.
\<close>

record join =
  j_update :: "(node \<times> node) option list"
  j_enter :: "node option list"
  j_exit :: "node option list"

definition bindKey :: "node list \<Rightarrow> node list \<Rightarrow> join" where
  "bindKey elems new =
     (let (m1, dup) = bind_nodes (map key elems) 0 Map.empty;
          (m2, upd) = bind_data (map key new) m1
      in \<lparr>j_update = map (\<lambda>(u, d). map_option (\<lambda>j. (elems ! j, d)) u) (zip upd new),
          j_enter = map (\<lambda>(u, d). if u = None then Some d else None) (zip upd new),
          j_exit = map (\<lambda>(j, old). if dup ! j \<or> m2 (key old) = Some j then Some old else None)
                     (enumerate 0 elems)\<rparr>)"

text \<open>The nodes in the slots of a selection, in its order.\<close>

definition members :: "'a option list \<Rightarrow> 'a list" where
  "members sel = List.map_filter (\<lambda>s. s) sel"

section \<open>Transitions\<close>

text \<open>
  A transition of one element: its duration, its delay (0 unless \<open>.delay\<close> is called),
  the attributes and styles it drives with the values they reach, and whether \<open>.remove()\<close>
  discards the element at the end.
\<close>

datatype attr = Transform | R | Opacity | Fill | Height | Width | Left | Top | Color | Class | FontSize

datatype val =
    Num real
  | Px real
  | Translate real real
  | Str "string option"
  | Null

record transition =
  t_duration :: real
  t_delay :: real
  t_targets :: "(attr \<times> val) list"
  t_remove :: bool

definition target :: "attr \<Rightarrow> transition \<Rightarrow> val option" where
  "target a t = map_of (t_targets t) a"

text \<open>\<open>fontFactor ? fontFactor * d.r + 'px' : null\<close>\<close>

definition fontSize :: "config \<Rightarrow> node \<Rightarrow> val" where
  "fontSize cfg d =
     (case fontSizeFactor cfg of
        None \<Rightarrow> Null
      | Some f \<Rightarrow> if f = 0 then Null else Px (f * node_r d))"

text \<open>Updating elements: \<open>i\<close> is the index of the element in the update selection.\<close>

definition update_circle :: "config \<Rightarrow> string quantize \<Rightarrow> nat \<Rightarrow> node \<Rightarrow> transition" where
  "update_circle cfg color i d =
     \<lparr>t_duration = duration cfg,
      t_delay = real i * delay cfg,
      t_targets = [(Transform, Translate (node_x d) (node_y d)),
                   (R, Num (node_r d)),
                   (Opacity, Num 1),
                   (Fill, Str (getCircleColor cfg color d))],
      t_remove = False\<rparr>"

definition update_label :: "config \<Rightarrow> string quantize \<Rightarrow> nat \<Rightarrow> node \<Rightarrow> transition" where
  "update_label cfg textColor i d =
     \<lparr>t_duration = duration cfg,
      t_delay = real i * delay cfg,
      t_targets = [(Height, Px (2 * node_r d)),
                   (Width, Px (2 * node_r d)),
                   (Left, Px (node_x d - node_r d)),
                   (Top, Px (node_y d - node_r d)),
                   (Opacity, Num 1),
                   (Color, Str (getLabelColor cfg textColor d)),
                   (Class, Str (Some (getLabelClass cfg d))),
                   (FontSize, fontSize cfg d)],
      t_remove = False\<rparr>"

text \<open>
  Entering elements: the attributes and styles an element is created with, then its
  transition. A circle is appended only for a node without children. Of a label, the
  text, the event handlers and \<open>position: absolute\<close> are left out.
\<close>

definition enter_circle_init :: "config \<Rightarrow> string quantize \<Rightarrow> node \<Rightarrow> (attr \<times> val) list" where
  "enter_circle_init cfg color d =
     [(Transform, Translate (node_x d) (node_y d)),
      (R, Num 0),
      (Class, Str (Some (''bubble'' @ (if \<not> children d then '' leaf'' else [])
                                   @ (if selected (data d) then '' selected'' else [])))),
      (Fill, Str (getCircleColor cfg color d))]"

definition enter_circle :: "config \<Rightarrow> node \<Rightarrow> transition" where
  "enter_circle cfg d =
     \<lparr>t_duration = duration cfg * 1.2,
      t_delay = 0,
      t_targets = [(Transform, Translate (node_x d) (node_y d)),
                   (R, Num (node_r d)),
                   (Opacity, Num 1)],
      t_remove = False\<rparr>"

definition enter_label_init :: "config \<Rightarrow> string quantize \<Rightarrow> node \<Rightarrow> (attr \<times> val) list" where
  "enter_label_init cfg textColor d =
     [(Class, Str (Some (getLabelClass cfg d))),
      (Height, Px (2 * node_r d)),
      (Width, Px (2 * node_r d)),
      (Left, Px (node_x d - node_r d)),
      (Top, Px (node_y d - node_r d)),
      (Color, Str (getLabelColor cfg textColor d)),
      (Opacity, Num 0)]"

definition enter_label :: "config \<Rightarrow> node \<Rightarrow> transition" where
  "enter_label cfg d =
     \<lparr>t_duration = duration cfg * 1.2,
      t_delay = 0,
      t_targets = [(Opacity, Num 1), (FontSize, fontSize cfg d)],
      t_remove = False\<rparr>"

text \<open>
  \<open>Math.atan2(dy, dx)\<close> over the reals (no signed zero): the angle of the point
  \<open>(dx, dy)\<close> in \<open>(-pi, pi]\<close>, and 0 at the origin.
\<close>

definition atan2 :: "real \<Rightarrow> real \<Rightarrow> real" where
  "atan2 dy dx =
     (if dx > 0 then arctan (dy / dx)
      else if dx < 0 then (if dy \<ge> 0 then arctan (dy / dx) + pi else arctan (dy / dx) - pi)
      else if dy > 0 then pi / 2
      else if dy < 0 then - pi / 2
      else 0)"

text \<open>Exiting elements: \<open>d\<close> is the datum the element was bound to.\<close>

definition destX :: "config \<Rightarrow> node \<Rightarrow> real" where
  "destX cfg d =
     (let dy = node_y d - diameter cfg / 2;
          dx = node_x d - diameter cfg / 2;
          theta = atan2 dy dx
      in diameter cfg * (1 + cos theta) / 2)"

definition destY :: "config \<Rightarrow> node \<Rightarrow> real" where
  "destY cfg d =
     (let dy = node_y d - diameter cfg / 2;
          dx = node_x d - diameter cfg / 2;
          theta = atan2 dy dx
      in diameter cfg * (1 + sin theta) / 2)"

definition exit_circle :: "config \<Rightarrow> node \<Rightarrow> transition" where
  "exit_circle cfg d =
     \<lparr>t_duration = duration cfg,
      t_delay = 0,
      t_targets = [(Transform, Translate (destX cfg d) (destY cfg d)),
                   (R, Num 0)],
      t_remove = True\<rparr>"

definition exit_label :: "config \<Rightarrow> node \<Rightarrow> transition" where
  "exit_label cfg d =
     \<lparr>t_duration = duration cfg,
      t_delay = 0,
      t_targets = [(Top, Px (destY cfg d)),
                   (Left, Px (destX cfg d)),
                   (Opacity, Num 0),
                   (Width, Num 0),
                   (Height, Num 0)],
      t_remove = True\<rparr>"

text \<open>
  What one call of \<open>update\<close> schedules. \<open>circles\<close> and \<open>labels\<close> are the data bound
  to the elements on screen, \<open>new\<close> is \<open>this.bubble(nodes).descendants()\<close>. The slots
  are those of the join: one for each datum (update, enter), one for each element (exit).
  Entering elements are created under the guard \<open>descendants().length > 0\<close>.
\<close>

record 'i schedule =
  s_update :: "transition option list"
  s_enter :: "('i \<times> transition) option list"
  s_exit :: "transition option list"

definition on_update :: "(nat \<Rightarrow> node \<Rightarrow> transition) \<Rightarrow> (node \<times> node) option list \<Rightarrow> transition option list" where
  "on_update f sel = map (\<lambda>(i, s). map_option (\<lambda>(old, d). f i d) s) (enumerate 0 sel)"

definition update_circles :: "config \<Rightarrow> string quantize \<Rightarrow> node list \<Rightarrow> node list \<Rightarrow> (attr \<times> val) list schedule" where
  "update_circles cfg color circles new =
     (let j = bindKey circles new
      in \<lparr>s_update = on_update (update_circle cfg color) (j_update j),
          s_enter = (if length new > 0
                     then map (\<lambda>s. case s of None \<Rightarrow> None
                                   | Some d \<Rightarrow> if \<not> children d
                                               then Some (enter_circle_init cfg color d, enter_circle cfg d)
                                               else None) (j_enter j)
                     else []),
          s_exit = map (map_option (exit_circle cfg)) (j_exit j)\<rparr>)"

definition update_labels :: "config \<Rightarrow> string quantize \<Rightarrow> node list \<Rightarrow> node list \<Rightarrow> (attr \<times> val) list schedule" where
  "update_labels cfg textColor labels new =
     (let j = bindKey labels new
      in \<lparr>s_update = on_update (update_label cfg textColor) (j_update j),
          s_enter = (if length new > 0
                     then map (map_option (\<lambda>d. (enter_label_init cfg textColor d, enter_label cfg d)))
                            (j_enter j)
                     else []),
          s_exit = map (map_option (exit_label cfg)) (j_exit j)\<rparr>)"

section \<open>Example inputs\<close>

text \<open>Concrete inputs at which the theorems below are evaluated.\<close>

definition leaf :: "string \<Rightarrow> real \<Rightarrow> real \<Rightarrow> real \<Rightarrow> node" where
  "leaf i x y r =
     \<lparr>data = \<lparr>data_id = Some i, colorValue = None, selected = False, displayText = None\<rparr>,
      node_x = x, node_y = y, node_r = r, children = False\<rparr>"

definition hidden :: tooltip_style where
  "hidden = \<lparr>tt_display = DisplayNone, tt_side = None, tt_width = None,
             tt_left = None, tt_top = None\<rparr>"

text \<open>
  A container of 500 by 500 with \<open>this.html\<close> at its origin, a margin of 5 and a
  tooltip measured \<open>w\<close> by 40, pointing at the node \<open>n\<close>.
\<close>

definition chart500 :: "real \<Rightarrow> node \<Rightarrow> chart" where
  "chart500 w n =
     \<lparr>tooltippedDataId = data_id (data n), tooltipMargin = 5,
      tooltipMode = ModeComponent, tooltipProps_set = False,
      container_offsetWidth = 500, container_offsetHeight = 500,
      html_offsetLeft = 0, html_offsetTop = 0,
      tooltip_offsetWidth = w, tooltip_offsetHeight = 40,
      circles_data = [n], circles_enter_data = [],
      tooltip = hidden\<rparr>"

definition no_props :: props where
  "no_props =
     \<lparr>props_selectedColor = None, props_selectedTextColor = None,
      props_smallDiameter = None, props_mediumDiameter = None,
      props_fontSizeFactor = None, props_duration = None, props_delay = None\<rparr>"

definition two_colors :: "string quantize" where
  "two_colors = \<lparr>q_domain = thresholds 0 10 1, q_range = [''#aaaaaa'', ''#bbbbbb'']\<rparr>"

definition five_colors :: "string list" where
  "five_colors = [''#c0'', ''#c1'', ''#c2'', ''#c3'', ''#c4'']"




definition d0_1 :: real where
  "d0_1 = 3602879701896397 / 2 ^ 55"


definition tenth_colors :: "string quantize" where
  "tenth_colors = \<lparr>q_domain = thresholds d0_1 d0_1 2, q_range = [''#c0'', ''#c1'', ''#c2'']\<rparr>"

text \<open>The scale of the fixed domain \<open>{min: 0, max: 0}\<close> over two colours.\<close>

definition flat_colors :: "string quantize" where
  "flat_colors = \<lparr>q_domain = thresholds 0 0 1, q_range = [''#aaaaaa'', ''#bbbbbb'']\<rparr>"

text \<open>A selected node with \<open>colorValue\<close> 7.\<close>

definition picked :: node where
  "picked =
     \<lparr>data = \<lparr>data_id = Some ''s'', colorValue = Some 7, selected = True, displayText = None\<rparr>,
      node_x = 100, node_y = 100, node_r = 20, children = False\<rparr>"

text \<open>The synthetic root \<open>{ children: data }\<close> on a canvas of side 200.\<close>

definition root200 :: node where
  "root200 =
     \<lparr>data = \<lparr>data_id = None, colorValue = None, selected = False, displayText = None\<rparr>,
      node_x = 100, node_y = 100, node_r = 100, children = True\<rparr>"

text \<open>
  The update cycle of scenario B on a canvas of side 200: the elements on screen are bound
  to \<open>a\<close> and \<open>b\<close>, the new generation is the root, \<open>b\<close> and \<open>c\<close>.
\<close>

definition prevB :: "node list" where
  "prevB = [leaf ''a'' 50 100 40, leaf ''b'' 150 100 40]"

definition newB :: "node list" where
  "newB = [root200, leaf ''b'' 60 100 30, leaf ''c'' 140 100 50]"

section \<open>Properties of the tooltip\<close>

text \<open>
  C1, as the code has it. The tooltip goes to the right of the node, at
  \<open>left = x + r + margin\<close>, when \<open>origin.x + x + r + width + margin\<close> is strictly below
  the container's width; otherwise to the left, at \<open>left = x - r - width - margin\<close>,
  when \<open>origin.x + x - r - width - margin\<close> is strictly positive; otherwise at
  \<open>left = containerWidth - width - margin\<close>. Here \<open>width\<close> is the tooltip's measured
  width plus 1 and \<open>origin.x\<close> is the offset of \<open>this.html\<close> in the container. The side
  is \<open>left\<close> exactly in the second case.
\<close>

theorem tooltip_horizontal:
  "p_left (tooltipPlacement ch d) =
     (if html_offsetLeft ch + node_x d + node_r d + (tooltip_offsetWidth ch + 1) + tooltipMargin ch
           < container_offsetWidth ch
      then node_x d + node_r d + tooltipMargin ch
      else if html_offsetLeft ch + node_x d - node_r d - (tooltip_offsetWidth ch + 1) - tooltipMargin ch > 0
      then node_x d - node_r d - (tooltip_offsetWidth ch + 1) - tooltipMargin ch
      else container_offsetWidth ch - (tooltip_offsetWidth ch + 1) - tooltipMargin ch)
   \<and> (p_side (tooltipPlacement ch d) = SideLeft) =
       (\<not> html_offsetLeft ch + node_x d + node_r d + (tooltip_offsetWidth ch + 1) + tooltipMargin ch
            < container_offsetWidth ch
        \<and> html_offsetLeft ch + node_x d - node_r d - (tooltip_offsetWidth ch + 1) - tooltipMargin ch > 0)"
  by (simp add: tooltipPlacement_def Let_def)

text \<open>
  Scenario C: container 500 by 500, margin 5, tooltip 100 by 40, node at (480, 250) with
  radius 20: the tooltip is placed on the left.
\<close>

theorem tooltip_horizontal_scenario_C:
  "p_side (tooltipPlacement (chart500 100 (leaf ''n'' 480 250 20)) (leaf ''n'' 480 250 20)) = SideLeft
   \<and> p_left (tooltipPlacement (chart500 100 (leaf ''n'' 480 250 20)) (leaf ''n'' 480 250 20)) = 354"
  using tooltip_horizontal [of "chart500 100 (leaf ''n'' 480 250 20)" "leaf ''n'' 480 250 20"]
  by (simp add: chart500_def leaf_def)

text \<open>
  C1 as stated fails where the left placement is exactly 0. Container 500 wide, margin 5,
  tooltip of width 100 (measured 99), node at x = 300 with radius 195: the right placement
  does not fit, the left placement \<open>x - r - width - margin\<close> is 0, which stays \<open>\<ge> 0\<close>, and
  yet the tooltip is put against the right edge, at 395, with side \<open>right\<close>.
\<close>

theorem tooltip_horizontal_zero_counterexample:
  "\<not> (node_x (leaf ''n'' 300 250 195) + node_r (leaf ''n'' 300 250 195)
        + p_width (tooltipPlacement (chart500 99 (leaf ''n'' 300 250 195)) (leaf ''n'' 300 250 195))
        + tooltipMargin (chart500 99 (leaf ''n'' 300 250 195))
       \<le> container_offsetWidth (chart500 99 (leaf ''n'' 300 250 195)))
   \<and> node_x (leaf ''n'' 300 250 195) - node_r (leaf ''n'' 300 250 195)
        - p_width (tooltipPlacement (chart500 99 (leaf ''n'' 300 250 195)) (leaf ''n'' 300 250 195))
        - tooltipMargin (chart500 99 (leaf ''n'' 300 250 195)) \<ge> 0
   \<and> p_side (tooltipPlacement (chart500 99 (leaf ''n'' 300 250 195)) (leaf ''n'' 300 250 195)) = SideRight
   \<and> p_left (tooltipPlacement (chart500 99 (leaf ''n'' 300 250 195)) (leaf ''n'' 300 250 195)) = 395"
  by (simp add: tooltipPlacement_def Let_def chart500_def leaf_def)

text \<open>
  C2 at an input where the code departs from it. Container 500 high, margin 5, tooltip
  40 high, node at y = 30: the centred tooltip would have its top at 10 and its bottom
  at 50, inside the container, but the test \<open>origin.y + d.y - height < 0\<close> (the whole height
  where the centred top needs half of it) sends it to the margin, top = 5.
\<close>

theorem tooltip_top_clamped_inside_bounds:
  "0 \<le> node_y (leaf ''n'' 250 30 20) - tooltip_offsetHeight (chart500 100 (leaf ''n'' 250 30 20)) / 2
   \<and> node_y (leaf ''n'' 250 30 20) + tooltip_offsetHeight (chart500 100 (leaf ''n'' 250 30 20)) / 2
        \<le> container_offsetHeight (chart500 100 (leaf ''n'' 250 30 20))
   \<and> node_y (leaf ''n'' 250 30 20) - tooltip_offsetHeight (chart500 100 (leaf ''n'' 250 30 20)) / 2 = 10
   \<and> p_top (tooltipPlacement (chart500 100 (leaf ''n'' 250 30 20)) (leaf ''n'' 250 30 20)) = 5"
  by (simp add: tooltipPlacement_def Let_def chart500_def leaf_def)

text \<open>
  The vertical rule as the code has it: the margin when \<open>origin.y + y - height < 0\<close>,
  else \<open>containerHeight - height - margin\<close> when \<open>origin.y + y + height / 2\<close> is beyond the
  container's height, else the centred \<open>y - height / 2\<close>.
\<close>

lemma tooltip_vertical:
  "p_top (tooltipPlacement ch d) =
     (if html_offsetTop ch + node_y d - tooltip_offsetHeight ch < 0 then tooltipMargin ch
      else if html_offsetTop ch + node_y d + tooltip_offsetHeight ch / 2 > container_offsetHeight ch
      then container_offsetHeight ch - tooltip_offsetHeight ch - tooltipMargin ch
      else node_y d - tooltip_offsetHeight ch / 2)"
  by (simp add: tooltipPlacement_def Let_def)

text \<open>
  C10. When no node of the current generation has the target id, \<open>findNodeByDataId\<close>
  finds nothing, \<open>adjustTooltipPosition\<close> returns without writing a position, and the
  end of \<open>update\<close> (\<open>_updateTooltip\<close>, then \<open>adjustTooltipPosition\<close>) raises nothing
  and either leaves the chart as it is (same target and same data as before) or hides the
  tooltip and clears its position.
\<close>

theorem tooltip_absent_target:
  assumes absent: "\<forall>n \<in> set (circles_data ch @ circles_enter_data ch). data_id (data n) \<noteq> Some tid"
    and target: "tooltippedDataId ch = Some tid"
  shows "findNodeByDataId ch tid = None
     \<and> adjustTooltipPosition ch = ch
     \<and> update_tooltip (Some tid) prevTid sameData vetoed ch
         = Inr (if Some tid = prevTid \<and> sameData then ch else hideTooltip ch)
     \<and> tt_display (tooltip (hideTooltip ch)) = DisplayNone
     \<and> tt_left (tooltip (hideTooltip ch)) = None
     \<and> tt_top (tooltip (hideTooltip ch)) = None"
proof -
  have nf: "findNodeByDataId ch tid = None"
    using absent by (auto simp: findNodeByDataId_def find_None_iff)
  have tn: "targetNode ch = None"
    using nf target by (simp add: targetNode_def)
  have nf': "findNodeByDataId (hideTooltip ch) tid = None"
    using nf by (simp add: findNodeByDataId_def hideTooltip_def)
  have tn': "targetNode (hideTooltip ch) = None"
    using nf' target by (simp add: targetNode_def hideTooltip_def)
  have a: "adjustTooltipPosition ch = ch"
    using tn by (simp add: adjustTooltipPosition_def)
  have a': "adjustTooltipPosition (hideTooltip ch) = hideTooltip ch"
    using tn' by (simp add: adjustTooltipPosition_def)
  have u: "updateTooltip (Some tid) prevTid sameData vetoed ch
         = Inr (if Some tid = prevTid \<and> sameData then ch else hideTooltip ch)"
    using nf by (simp add: updateTooltip_def)
  have t: "update_tooltip (Some tid) prevTid sameData vetoed ch
         = Inr (if Some tid = prevTid \<and> sameData then ch else hideTooltip ch)"
    using a a' by (simp add: update_tooltip_def u)
  show ?thesis
    using nf a t by (simp add: hideTooltip_def)
qed

text \<open>The generation holds the node \<open>a\<close> only and the target is \<open>zz\<close>.\<close>

theorem tooltip_absent_target_example:
  "findNodeByDataId ((chart500 100 (leaf ''a'' 100 100 20))\<lparr>tooltippedDataId := Some ''zz''\<rparr>) ''zz'' = None
   \<and> update_tooltip (Some ''zz'') None False False
        ((chart500 100 (leaf ''a'' 100 100 20))\<lparr>tooltippedDataId := Some ''zz''\<rparr>)
       = Inr (hideTooltip ((chart500 100 (leaf ''a'' 100 100 20))\<lparr>tooltippedDataId := Some ''zz''\<rparr>))
   \<and> tooltip (hideTooltip ((chart500 100 (leaf ''a'' 100 100 20))\<lparr>tooltippedDataId := Some ''zz''\<rparr>))
       = hidden"
proof -
  let ?ch = "(chart500 100 (leaf ''a'' 100 100 20))\<lparr>tooltippedDataId := Some ''zz''\<rparr>"
  have absent: "\<forall>n \<in> set (circles_data ?ch @ circles_enter_data ?ch). data_id (data n) \<noteq> Some ''zz''"
    by (simp add: chart500_def leaf_def)
  have target: "tooltippedDataId ?ch = Some ''zz''"
    by simp
  have h: "tooltip (hideTooltip ?ch) = hidden"
    by (simp add: hideTooltip_def chart500_def hidden_def)
  show ?thesis
    using tooltip_absent_target [OF absent target, of None False False] h
    by simp
qed

section \<open>Properties of the colour scale\<close>

subsection \<open>Rounding to a double\<close>

lemma rne_of_int: "rne (of_int z) = z"
  by (simp add: rne_def)

lemma round_double_zero: "round_double 0 = 0"
  by (simp add: round_double_def)

lemma round_double_scaled:
  assumes lo: "2 ^ 52 \<le> \<bar>x\<bar> * 2 ^ k" and hi: "\<bar>x\<bar> * 2 ^ k < 2 ^ 53" and k: "k \<le> 1074"
  shows "round_double x = of_int (rne (x * 2 ^ k)) / 2 ^ k"
proof -
  define e :: int where "e = 52 - int k"
  have x0: "x \<noteq> 0" using lo by auto
  have pos: "0 < \<bar>x\<bar>" using x0 by simp
  have p: "(2::real) powi e = 2 ^ 52 / 2 ^ k"
    by (simp add: e_def power_int_diff)
  have p1: "(2::real) powi (e + 1) = 2 ^ 53 / 2 ^ k"
    by (simp add: e_def power_int_diff power_int_add)
  have "(2::real) powi e \<le> \<bar>x\<bar>"
    using lo by (simp add: p pos_divide_le_eq)
  moreover have "\<bar>x\<bar> < (2::real) powi (e + 1)"
    using hi by (simp add: p1 pos_less_divide_eq)
  ultimately have "2 powr real_of_int e \<le> \<bar>x\<bar>" and "\<bar>x\<bar> < 2 powr (real_of_int (e + 1))"
    by (simp_all only: powr_real_of_int' [of 2, simplified])
  then have "\<lfloor>log 2 \<bar>x\<bar>\<rfloor> = e"
    using floor_log_eq_powr_iff [of "\<bar>x\<bar>" 2 e] pos by simp
  then have u: "ulp_exp x = - int k"
    using k by (simp add: ulp_exp_def e_def)
  have q: "(2::real) powi (- int k) = inverse (2 ^ k)"
    by (simp add: power_int_minus)
  show ?thesis
    using x0 by (simp add: round_double_def u q divide_inverse)
qed

lemma round_double_int:
  assumes "\<bar>m\<bar> < 2 ^ 53"
  shows "round_double (of_int m) = of_int m"
proof (cases "m = 0")
  case True
  then show ?thesis by (simp add: round_double_zero)
next
  case False
  define e where "e = \<lfloor>log 2 \<bar>real_of_int m\<bar>\<rfloor>"
  have ge1: "1 \<le> \<bar>real_of_int m\<bar>" using False by (simp flip: of_int_abs)
  have "0 \<le> log 2 \<bar>real_of_int m\<bar>" using ge1 by simp
  then have e0: "0 \<le> e" by (simp add: e_def)
  have "\<bar>real_of_int m\<bar> < 2 ^ 53"
    using assms by (metis of_int_abs of_int_less_iff of_int_numeral of_int_power)
  then have "log 2 \<bar>real_of_int m\<bar> < 53"
    using ge1 by (simp add: log_less_iff powr_realpow [symmetric] del: powr_numeral) 
  then have e53: "e < 53" by (simp add: e_def floor_less_iff)
  define j where "j = nat (52 - e)"
  have u: "ulp_exp (of_int m) = - int j"
    using e0 e53 by (simp add: ulp_exp_def e_def [symmetric] j_def)
  have q: "(2::real) powi (- int j) = inverse (2 ^ j)"
    by (simp add: power_int_minus)
  have "real_of_int m / inverse (2 ^ j) = of_int (m * 2 ^ j)"
    by (simp add: divide_inverse)
  then have "rne (real_of_int m / inverse (2 ^ j)) = m * 2 ^ j"
    by (simp only: rne_of_int)
  then show ?thesis
    using False by (simp add: round_double_def u q)
qed

lemma round_double_numeral:
  "(numeral w :: int) < 2 ^ 53 \<Longrightarrow> round_double (numeral w) = numeral w"
  using round_double_int [of "numeral w"] by simp

lemma round_double_neg_numeral:
  "(numeral w :: int) < 2 ^ 53 \<Longrightarrow> round_double (- numeral w) = - numeral w"
  using round_double_int [of "- numeral w"] by simp

subsection \<open>The binary search\<close>

text \<open>On any array the search stops between an entry that is not above \<open>x\<close> and one that is.\<close>

lemma bisectRight_bracket:
  assumes "lo \<le> hi" and "hi \<le> length a"
    and "lo = 0 \<or> a ! (lo - 1) \<le> x" and "hi = length a \<or> x < a ! hi"
  shows "lo \<le> bisectRight a x lo hi \<and> bisectRight a x lo hi \<le> hi
       \<and> (bisectRight a x lo hi = 0 \<or> a ! (bisectRight a x lo hi - 1) \<le> x)
       \<and> (bisectRight a x lo hi = length a \<or> x < a ! bisectRight a x lo hi)"
  using assms
proof (induction a x lo hi rule: bisectRight.induct)
  case (1 a x lo hi)
  show ?case
  proof (cases "lo < hi")
    case False
    have "bisectRight a x lo hi = lo"
      using False by (subst bisectRight.simps) simp
    with False "1.prems" show ?thesis by auto
  next
    case True
    define mid where "mid = (lo + hi) div 2"
    have mid: "lo \<le> mid" "mid < hi" using True by (simp_all add: mid_def)
    have mlen: "mid \<le> length a" "mid + 1 \<le> hi" using mid "1.prems"(2) by simp_all
    show ?thesis
    proof (cases "x < a ! mid")
      case gt: True
      have eq: "bisectRight a x lo hi = bisectRight a x lo mid"
        using True gt by (simp add: bisectRight.simps [of a x lo hi] mid_def Let_def)
      have top: "mid = length a \<or> x < a ! mid" using gt by simp
      have "lo \<le> bisectRight a x lo mid \<and> bisectRight a x lo mid \<le> mid
          \<and> (bisectRight a x lo mid = 0 \<or> a ! (bisectRight a x lo mid - 1) \<le> x)
          \<and> (bisectRight a x lo mid = length a \<or> x < a ! bisectRight a x lo mid)"
        by (rule "1.IH"(1) [OF True mid_def gt mid(1) mlen(1) "1.prems"(3) top])
      then show ?thesis unfolding eq using mid by auto
    next
      case le: False
      have eq: "bisectRight a x lo hi = bisectRight a x (mid + 1) hi"
        using True le by (simp add: bisectRight.simps [of a x lo hi] mid_def Let_def)
      have bot: "mid + 1 = 0 \<or> a ! (mid + 1 - 1) \<le> x" using le by simp
      have "mid + 1 \<le> bisectRight a x (mid + 1) hi \<and> bisectRight a x (mid + 1) hi \<le> hi
          \<and> (bisectRight a x (mid + 1) hi = 0 \<or> a ! (bisectRight a x (mid + 1) hi - 1) \<le> x)
          \<and> (bisectRight a x (mid + 1) hi = length a \<or> x < a ! bisectRight a x (mid + 1) hi)"
        by (rule "1.IH"(2) [OF True mid_def le mlen(2) "1.prems"(2) bot "1.prems"(4)])
      then show ?thesis unfolding eq using mid by auto
    qed
  qed
qed

text \<open>Single steps of the search, for running it on a given array.\<close>

lemma bisectRight_left:
  assumes "lo < hi" and "mid = (lo + hi) div 2" and "x < a ! mid"
  shows "bisectRight a x lo hi = bisectRight a x lo mid"
  using assms by (subst bisectRight.simps) (simp add: Let_def)


lemma bisectRight_done:
  assumes "\<not> lo < hi"
  shows "bisectRight a x lo hi = lo"
  using assms by (subst bisectRight.simps) simp


subsection \<open>The thresholds\<close>

lemma thresholds_length: "length (thresholds x0 x1 n) = n"
  by (simp add: thresholds_def)

lemma thresholds_nth: "i < n \<Longrightarrow> thresholds x0 x1 n ! i = threshold x0 x1 n i"
  by (simp add: thresholds_def)

lemma threshold_steps:
  assumes "round_double ((real i + 1) * x1) = a"
    and "round_double ((real i - real n) * x0) = b"
    and "round_double (a - b) = c"
    and "round_double (c / (real n + 1)) = t"
  shows "threshold x0 x1 n i = t"
  using assms by (simp add: threshold_def)

lemma threshold_zero: "threshold 0 0 n i = 0"
  by (simp add: threshold_def round_double_zero)

lemma thresholds_zero: "thresholds 0 0 n = replicate n 0"
  by (rule nth_equalityI) (simp_all add: thresholds_length thresholds_nth threshold_zero)










lemma spec_bucket_lt:
  assumes "0 < N"
  shows "spec_bucket lo hi N v < N"
  using assms by (simp add: spec_bucket_def)

lemma bisect_zero:
  "bisectRight (replicate n 0) v 0 n = (if v < 0 then 0 else n)"
proof -
  define k where "k = bisectRight (replicate n (0::real)) v 0 n"
  have kn: "k \<le> n"
    and below: "k = 0 \<or> replicate n (0::real) ! (k - 1) \<le> v"
    and above: "k = n \<or> v < replicate n (0::real) ! k"
    using bisectRight_bracket [of 0 n "replicate n (0::real)" v] by (simp_all add: k_def)
  have "k = 0" if "v < 0"
  proof (rule ccontr)
    assume "k \<noteq> 0"
    then have "k - 1 < n" using kn by simp
    then have "0 \<le> v" using below \<open>k \<noteq> 0\<close> by simp
    with that show False by simp
  qed
  moreover have "k = n" if "\<not> v < 0"
  proof (rule ccontr)
    assume "k \<noteq> n"
    then have "k < n" using kn by simp
    then have "v < 0" using above \<open>k \<noteq> n\<close> by simp
    with that show False by simp
  qed
  ultimately show ?thesis by (simp add: k_def)
qed

subsection \<open>The scales of the examples\<close>


lemma two_colors_domain: "q_domain two_colors = [5]"
  by (simp add: two_colors_def thresholds_def threshold_def round_double_zero round_double_numeral)

lemma flat_colors_domain: "q_domain flat_colors = [0]"
  by (simp add: flat_colors_def thresholds_zero)



text \<open>
  Both thresholds of the degenerate domain \<open>{min: 0.1, max: 0.1}\<close> over three colours are
  0.10000000000000002, above 0.1, so there the value 0.1 falls into the first bucket: for
  a degenerate domain other than 0 the bucket of \<open>min\<close> depends on the rounding.
\<close>

lemma tenth_colors_threshold_0: "threshold d0_1 d0_1 2 0 = 7205759403792795 / 2 ^ 56"
proof -
  have a: "round_double ((real (0::nat) + 1) * d0_1) = 3602879701896397 / 2 ^ 55"
    by (subst round_double_scaled [where k = 56]) (simp_all add: rne_def d0_1_def)
  have b: "round_double ((real (0::nat) - real (2::nat)) * d0_1) = - (3602879701896397 / 2 ^ 54)"
    by (subst round_double_scaled [where k = 55]) (simp_all add: rne_def d0_1_def)
  have c: "round_double (3602879701896397 / 2 ^ 55 - - (3602879701896397 / 2 ^ 54))
             = 1351079888211149 / 2 ^ 52"
    by (subst round_double_scaled [where k = 54]) (simp_all add: rne_def)
  have t: "round_double (1351079888211149 / 2 ^ 52 / (real (2::nat) + 1)) = 7205759403792795 / 2 ^ 56"
    by (subst round_double_scaled [where k = 56]) (simp_all add: rne_def)
  show ?thesis by (rule threshold_steps [OF a b c t])
qed

lemma tenth_colors_threshold_1: "threshold d0_1 d0_1 2 1 = 7205759403792795 / 2 ^ 56"
proof -
  have a: "round_double ((real (1::nat) + 1) * d0_1) = 3602879701896397 / 2 ^ 54"
    by (subst round_double_scaled [where k = 55]) (simp_all add: rne_def d0_1_def)
  have b: "round_double ((real (1::nat) - real (2::nat)) * d0_1) = - (3602879701896397 / 2 ^ 55)"
    by (subst round_double_scaled [where k = 56]) (simp_all add: rne_def d0_1_def)
  have c: "round_double (3602879701896397 / 2 ^ 54 - - (3602879701896397 / 2 ^ 55))
             = 1351079888211149 / 2 ^ 52"
    by (subst round_double_scaled [where k = 54]) (simp_all add: rne_def)
  have t: "round_double (1351079888211149 / 2 ^ 52 / (real (2::nat) + 1)) = 7205759403792795 / 2 ^ 56"
    by (subst round_double_scaled [where k = 56]) (simp_all add: rne_def)
  show ?thesis by (rule threshold_steps [OF a b c t])
qed

lemma degenerate_tenth_first_bucket:
  "scaleQuantize d0_1 d0_1 [''#c0'', ''#c1'', ''#c2''] = Inr tenth_colors
   \<and> bucket tenth_colors d0_1 = 0"
proof -
  define T where "T = q_domain tenth_colors"
  have len: "length T = 2" by (simp add: T_def tenth_colors_def thresholds_length)
  have "T ! 0 = threshold d0_1 d0_1 2 0"
    unfolding T_def tenth_colors_def quantize.select_convs by (rule thresholds_nth) simp
  then have T0: "T ! 0 = 7205759403792795 / 2 ^ 56"
    by (simp only: tenth_colors_threshold_0)
  have "T ! 1 = threshold d0_1 d0_1 2 1"
    unfolding T_def tenth_colors_def quantize.select_convs by (rule thresholds_nth) simp
  then have T1: "T ! 1 = 7205759403792795 / 2 ^ 56"
    by (simp only: tenth_colors_threshold_1)
  have c0: "d0_1 < T ! 0" unfolding T0 d0_1_def by simp
  have c1: "d0_1 < T ! 1" unfolding T1 d0_1_def by simp
  have "bisectRight T d0_1 0 2 = bisectRight T d0_1 0 1"
    by (rule bisectRight_left [OF _ _ c1]) simp_all
  also have "\<dots> = bisectRight T d0_1 0 0"
    by (rule bisectRight_left [OF _ _ c0]) simp_all
  also have "\<dots> = 0"
    by (rule bisectRight_done) simp
  finally have b: "bucket tenth_colors d0_1 = 0"
    using len by (simp add: bucket_def T_def)
  have l: "length [''#c0'', ''#c1'', ''#c2''] - 1 = 2" by simp
  have "scaleQuantize d0_1 d0_1 [''#c0'', ''#c1'', ''#c2''] = Inr tenth_colors"
    unfolding scaleQuantize_def l tenth_colors_def by simp
  with b show ?thesis by simp
qed

subsection \<open>The claims on the quantizer\<close>




text \<open>
  C8, as the code has it. For a degenerate domain \<open>min = max = m\<close> and a palette of at
  least one colour, the scale is built without error (its only division is by the number
  of colours) and sends every value to a colour of the palette. For the domain
  \<open>{min: 0, max: 0}\<close> every value below 0 goes to the first bucket and every value from 0
  on, 0 itself included, goes to the last bucket.
\<close>

theorem quantize_degenerate:
  assumes pal: "colors \<noteq> []"
  shows "\<exists>q. scaleQuantize m m colors = Inr q
     \<and> (\<forall>v. bucket q v < length colors \<and> scale q (Some v) = Some (colors ! bucket q v))
     \<and> (m = 0 \<longrightarrow> (\<forall>v. bucket q v = (if v < 0 then 0 else length colors - 1)))"
proof -
  define n where "n = length colors - 1"
  define T where "T = thresholds m m n"
  define q :: "'a quantize" where "q = \<lparr>q_domain = T, q_range = colors\<rparr>"
  have N: "0 < length colors" using pal by simp
  have len: "length T = n" by (simp add: T_def thresholds_length)
  have q: "scaleQuantize m m colors = Inr q"
    using pal by (simp add: scaleQuantize_def q_def T_def n_def)
  have b: "bucket q v = bisectRight T v 0 n" for v
    by (simp add: bucket_def q_def len)
  have "bisectRight T v 0 n \<le> n" for v
    using bisectRight_bracket [of 0 n T v] len by simp
  moreover have "n < length colors" using N by (simp add: n_def)
  ultimately have in_palette: "bucket q v < length colors" for v
    unfolding b by (rule le_less_trans)
  have s: "scale q (Some v) = Some (colors ! bucket q v)" for v
    using in_palette [of v] by (simp add: scale_def) (simp add: q_def)
  have z: "bucket q v = (if v < 0 then 0 else length colors - 1)" if "m = 0" for v
    using that bisect_zero [of n v] by (simp add: b T_def thresholds_zero n_def)
  show ?thesis
    using q in_palette s z by (intro exI [of _ q]) simp
qed

text \<open>Domain \<open>[0, 0]\<close> and five colours: 0 falls into bucket 4, -1 into bucket 0.\<close>

theorem quantize_degenerate_example:
  "\<exists>q. scaleQuantize 0 0 five_colors = Inr q
     \<and> bucket q 0 = 4 \<and> bucket q (- 1) = 0 \<and> scale q (Some 0) = Some ''#c4''"
proof -
  have pal: "five_colors \<noteq> []" by (simp add: five_colors_def)
  obtain q where q: "scaleQuantize 0 0 five_colors = Inr q"
    and s: "\<forall>v. scale q (Some v) = Some (five_colors ! bucket q v)"
    and b: "(0::real) = 0 \<longrightarrow> (\<forall>v. bucket q v = (if v < 0 then 0 else length five_colors - 1))"
    using quantize_degenerate [OF pal, of 0] by blast
  have b0: "bucket q 0 = 4" and b1: "bucket q (- 1) = 0"
    using b by (simp_all add: five_colors_def)
  have "scale q (Some 0) = Some ''#c4''"
    using s b0 by (simp add: five_colors_def)
  then show ?thesis
    using q b0 b1 by (intro exI [of _ q]) simp
qed

text \<open>
  C8 as stated fails: with \<open>fixedDomain = {min: 0, max: 0}\<close> and two colours, the single
  threshold is 0, the search puts the value 0 to its right, and the scale returns the
  second colour (bucket 1), not the first.
\<close>

theorem quantize_degenerate_counterexample:
  "scaleQuantize 0 0 [''#aaaaaa'', ''#bbbbbb''] = Inr flat_colors
   \<and> q_domain flat_colors = [0]
   \<and> bucket flat_colors 0 = 1
   \<and> scale flat_colors (Some 0) = Some ''#bbbbbb''"
proof -
  have b: "bucket flat_colors 0 = 1"
    by (simp add: bucket_def flat_colors_domain bisectRight.simps)
  have "scale flat_colors (Some 0) = Some ''#bbbbbb''"
    by (simp add: scale_def b) (simp add: flat_colors_def)
  then show ?thesis
    using b by (simp add: scaleQuantize_def flat_colors_domain) (simp add: flat_colors_def)
qed

section \<open>The fill of a circle, current and legacy\<close>

text \<open>
  C9, as the code has it. The fill of the current engine and the fill of the legacy
  variant agree for every node that is not selected, and for every selected node when a
  non-empty \<open>selectedColor\<close> is configured. For a selected node without such an override
  the current engine returns the colour of the scale, the legacy variant returns the
  missing override itself.
\<close>

theorem circle_fill_legacy:
  "(\<not> selected (data d) \<or> truthy (selectedColor cfg)
      \<longrightarrow> getCircleColor cfg color d = legacy_fill cfg color d)
   \<and> (selected (data d) \<and> \<not> truthy (selectedColor cfg)
      \<longrightarrow> getCircleColor cfg color d = scale color (colorValue (data d))
        \<and> legacy_fill cfg color d = selectedColor cfg)"
  by (simp add: getCircleColor_def legacy_fill_def)

text \<open>A selected node with the override \<open>#ff0000\<close>: both engines fill with the override.\<close>

theorem circle_fill_legacy_example:
  "getCircleColor ((constructor no_props 500 500)\<lparr>selectedColor := Some ''#ff0000''\<rparr>) two_colors picked
     = Some ''#ff0000''
   \<and> legacy_fill ((constructor no_props 500 500)\<lparr>selectedColor := Some ''#ff0000''\<rparr>) two_colors picked
     = Some ''#ff0000''"
proof -
  let ?cfg = "(constructor no_props 500 500)\<lparr>selectedColor := Some ''#ff0000''\<rparr>"
  have h: "\<not> selected (data picked) \<or> truthy (selectedColor ?cfg)"
    by (simp add: truthy_def)
  have "getCircleColor ?cfg two_colors picked = legacy_fill ?cfg two_colors picked"
    using circle_fill_legacy [of picked ?cfg two_colors] h by blast
  then show ?thesis
    by (simp add: legacy_fill_def picked_def)
qed

text \<open>
  C9 as stated fails for a selected node when no \<open>selectedColor\<close> is configured: on the
  domain \<open>[0, 10]\<close> with two colours and \<open>colorValue\<close> 7, the current engine fills with
  the second colour of the scale and the legacy variant with \<open>undefined\<close>.
\<close>

theorem circle_fill_legacy_counterexample:
  "selectedColor (constructor no_props 500 500) = None
   \<and> scaleQuantize 0 10 [''#aaaaaa'', ''#bbbbbb''] = Inr two_colors
   \<and> getCircleColor (constructor no_props 500 500) two_colors picked = Some ''#bbbbbb''
   \<and> legacy_fill (constructor no_props 500 500) two_colors picked = None"
proof -
  have b: "bucket two_colors 7 = 1"
    by (simp add: bucket_def two_colors_domain bisectRight.simps)
  have s: "scale two_colors (Some 7) = Some ''#bbbbbb''"
    by (simp add: scale_def b) (simp add: two_colors_def)
  show ?thesis
    using s
    by (simp add: getCircleColor_def legacy_fill_def constructor_def no_props_def picked_def
        truthy_def scaleQuantize_def)
      (simp add: two_colors_def)
qed

section \<open>Properties of the data join\<close>

subsection \<open>The slots of the selections\<close>

lemma bind_data_length: "length (snd (bind_data ks m)) = length ks"
  by (induction ks arbitrary: m) (simp_all add: case_prod_beta split: option.splits)

lemma bind_nodes_length: "length (snd (bind_nodes ks i m)) = length ks"
  by (induction ks arbitrary: i m) (simp_all add: case_prod_beta)

lemma bindKey_lengths:
  "length (j_update (bindKey elems new)) = length new"
  "length (j_enter (bindKey elems new)) = length new"
  "length (j_exit (bindKey elems new)) = length elems"
  using bind_data_length [of "map key new" "fst (bind_nodes (map key elems) 0 Map.empty)"]
  by (simp_all add: bindKey_def case_prod_beta Let_def)

lemma j_enter_slot:
  assumes "i < length new" and "j_enter (bindKey elems new) ! i = Some d"
  shows "d = new ! i"
  using assms bind_data_length [of "map key new" "fst (bind_nodes (map key elems) 0 Map.empty)"]
  by (auto simp: bindKey_def case_prod_beta Let_def split: if_splits)

lemma j_update_slot:
  assumes "i < length new" and "j_update (bindKey elems new) ! i = Some (old, d)"
  shows "d = new ! i"
  using assms bind_data_length [of "map key new" "fst (bind_nodes (map key elems) 0 Map.empty)"]
  by (auto simp: bindKey_def case_prod_beta Let_def split: if_splits)

lemma j_exit_slot:
  assumes "j < length elems" and "j_exit (bindKey elems new) ! j = Some old"
  shows "old = elems ! j"
  using assms
  by (auto simp: bindKey_def case_prod_beta Let_def nth_enumerate_eq split: if_splits)

lemma on_update_slot:
  assumes "i < length sel"
  shows "on_update f sel ! i = map_option (\<lambda>(old, d). f i d) (sel ! i)"
  using assms by (simp add: on_update_def nth_enumerate_eq)


subsection \<open>The three loops on pairwise different keys\<close>

lemma bind_nodes_distinct:
  assumes "distinct ks" and "set ks \<inter> dom m = {}"
  shows "snd (bind_nodes ks i m) = replicate (length ks) False
       \<and> (\<forall>j<length ks. fst (bind_nodes ks i m) (ks ! j) = Some (i + j))
       \<and> (\<forall>k. k \<notin> set ks \<longrightarrow> fst (bind_nodes ks i m) k = m k)"
  using assms
proof (induction ks arbitrary: i m)
  case Nil
  then show ?case by simp
next
  case (Cons k ks)
  have fresh: "m k = None" using Cons.prems(2) by auto
  have d: "distinct ks" and nk: "k \<notin> set ks" using Cons.prems(1) by simp_all
  have disj: "set ks \<inter> dom (m(k \<mapsto> i)) = {}" using Cons.prems(2) nk by auto
  define rec where "rec = bind_nodes ks (Suc i) (m(k \<mapsto> i))"
  have IH1: "snd rec = replicate (length ks) False"
    and IH2: "\<forall>j<length ks. fst rec (ks ! j) = Some (Suc i + j)"
    and IH3: "\<forall>k'. k' \<notin> set ks \<longrightarrow> fst rec k' = (m(k \<mapsto> i)) k'"
    using Cons.IH [OF d disj, of "Suc i"] unfolding rec_def by blast+
  have step: "bind_nodes (k # ks) i m = (fst rec, False # snd rec)"
    using fresh by (simp add: case_prod_beta rec_def)
  have a: "snd (bind_nodes (k # ks) i m) = replicate (length (k # ks)) False"
    using IH1 unfolding step by simp
  have b: "fst (bind_nodes (k # ks) i m) ((k # ks) ! j) = Some (i + j)" if "j < length (k # ks)" for j
  proof (cases j)
    case 0
    then show ?thesis using IH3 nk unfolding step by simp
  next
    case (Suc j')
    then show ?thesis using IH2 that unfolding step by simp
  qed
  have c: "fst (bind_nodes (k # ks) i m) k' = m k'" if "k' \<notin> set (k # ks)" for k'
    using IH3 that unfolding step by simp
  show ?case using a b c by blast
qed

lemma bind_data_distinct:
  assumes "distinct ks"
  shows "snd (bind_data ks m) = map m ks
       \<and> fst (bind_data ks m) = (\<lambda>k. if k \<in> set ks then None else m k)"
  using assms
proof (induction ks arbitrary: m)
  case Nil
  then show ?case by simp
next
  case (Cons k ks)
  have d: "distinct ks" and nk: "k \<notin> set ks" using Cons.prems by simp_all
  show ?case
  proof (cases "m k")
    case None
    have "bind_data (k # ks) m = (fst (bind_data ks m), None # snd (bind_data ks m))"
      using None by (simp add: case_prod_beta)
    then show ?thesis
      using Cons.IH [OF d, of m] None by (auto simp: fun_eq_iff)
  next
    case (Some j)
    have "bind_data (k # ks) m =
        (fst (bind_data ks (m(k := None))), Some j # snd (bind_data ks (m(k := None))))"
      using Some by (simp add: case_prod_beta)
    moreover have "map (m(k := None)) ks = map m ks"
      using nk by (induction ks) auto
    ultimately show ?thesis
      using Cons.IH [OF d, of "m(k := None)"] Some by (auto simp: fun_eq_iff)
  qed
qed

lemma zip_map_self: "zip (map f xs) xs = map (\<lambda>x. (f x, x)) xs"
  by (induction xs) simp_all

lemma members_filter:
  "members (map (\<lambda>d. if P d then Some d else None) xs) = filter P xs"
  by (induction xs) (simp_all add: members_def)

text \<open>The map of the first loop, for a group with pairwise different keys.\<close>

lemma first_loop:
  assumes "distinct (map key elems)"
  defines "m1 \<equiv> fst (bind_nodes (map key elems) 0 Map.empty)"
  shows "snd (bind_nodes (map key elems) 0 Map.empty) = replicate (length elems) False"
    and "\<forall>j<length elems. m1 (key (elems ! j)) = Some j"
    and "\<forall>k. k \<notin> key ` set elems \<longrightarrow> m1 k = None"
  using bind_nodes_distinct [OF assms(1), of Map.empty 0]
  by (simp_all add: m1_def)

lemma m1_Some:
  assumes "distinct (map key elems)"
    and "fst (bind_nodes (map key elems) 0 Map.empty) k = Some j"
  shows "j < length elems \<and> key (elems ! j) = k"
proof -
  have "k \<in> key ` set elems"
    using first_loop(3) [OF assms(1)] assms(2) by fastforce
  then obtain j' where j': "j' < length elems" "key (elems ! j') = k"
    by (auto simp: in_set_conv_nth)
  then have "fst (bind_nodes (map key elems) 0 Map.empty) k = Some j'"
    using first_loop(2) [OF assms(1)] by auto
  with assms(2) j' show ?thesis by simp
qed

lemma bindKey_enter:
  assumes "distinct (map key elems)" and "distinct (map key new)"
  shows "j_enter (bindKey elems new)
       = map (\<lambda>d. if key d \<notin> key ` set elems then Some d else None) new"
proof -
  define m1 where "m1 = fst (bind_nodes (map key elems) 0 Map.empty)"
  have upd: "snd (bind_data (map key new) m1) = map (\<lambda>d. m1 (key d)) new"
    using bind_data_distinct [OF assms(2), of m1] by (simp add: comp_def)
  have none: "m1 (key d) = None \<longleftrightarrow> key d \<notin> key ` set elems" for d
  proof
    assume "m1 (key d) = None"
    show "key d \<notin> key ` set elems"
    proof
      assume "key d \<in> key ` set elems"
      then obtain j where "j < length elems" "key (elems ! j) = key d"
        by (auto simp: in_set_conv_nth)
      then have "m1 (key d) = Some j"
        using first_loop(2) [OF assms(1)] by (auto simp: m1_def)
      with \<open>m1 (key d) = None\<close> show False by simp
    qed
  next
    assume "key d \<notin> key ` set elems"
    then show "m1 (key d) = None"
      using first_loop(3) [OF assms(1)] by (simp add: m1_def)
  qed
  have "j_enter (bindKey elems new)
      = map (\<lambda>(u, d). if u = None then Some d else None) (zip (map (\<lambda>d. m1 (key d)) new) new)"
    using upd by (simp add: bindKey_def case_prod_beta Let_def m1_def)
  also have "\<dots> = map (\<lambda>d. if m1 (key d) = None then Some d else None) new"
    by (simp add: zip_map_self comp_def)
  also have "\<dots> = map (\<lambda>d. if key d \<notin> key ` set elems then Some d else None) new"
    using none by simp
  finally show ?thesis .
qed


lemma find_by_key:
  assumes "distinct (map key elems)" and "j < length elems"
  shows "List.find (\<lambda>old. key old = key (elems ! j)) elems = Some (elems ! j)"
proof -
  have "\<not> key (elems ! i) = key (elems ! j)" if "i < j" for i
  proof -
    have "map key elems ! i \<noteq> map key elems ! j"
      using assms that by (simp add: nth_eq_iff_index_eq del: nth_map)
    then show ?thesis using assms that by simp
  qed
  then show ?thesis
    using assms(2) by (auto simp: find_Some_iff)
qed

lemma bindKey_update:
  assumes "distinct (map key elems)" and "distinct (map key new)"
  shows "j_update (bindKey elems new)
       = map (\<lambda>d. map_option (\<lambda>old. (old, d)) (List.find (\<lambda>old. key old = key d) elems)) new"
proof -
  define m1 where "m1 = fst (bind_nodes (map key elems) 0 Map.empty)"
  have upd: "snd (bind_data (map key new) m1) = map (\<lambda>d. m1 (key d)) new"
    using bind_data_distinct [OF assms(2), of m1] by (simp add: comp_def)
  have slot: "map_option (\<lambda>j. (elems ! j, d)) (m1 (key d))
            = map_option (\<lambda>old. (old, d)) (List.find (\<lambda>old. key old = key d) elems)" for d
  proof (cases "m1 (key d)")
    case None
    then have "key d \<notin> key ` set elems"
      using first_loop(2) [OF assms(1)] by (fastforce simp: m1_def in_set_conv_nth)
    then have "List.find (\<lambda>old. key old = key d) elems = None"
      by (auto simp: find_None_iff image_iff)
    with None show ?thesis by simp
  next
    case (Some j)
    then have j: "j < length elems" "key (elems ! j) = key d"
      using m1_Some [OF assms(1), of "key d" j] by (simp_all add: m1_def)
    then have "List.find (\<lambda>old. key old = key d) elems = Some (elems ! j)"
      using find_by_key [OF assms(1) j(1)] by simp
    with Some show ?thesis by simp
  qed
  have "j_update (bindKey elems new)
      = map (\<lambda>(u, d). map_option (\<lambda>j. (elems ! j, d)) u) (zip (map (\<lambda>d. m1 (key d)) new) new)"
    using upd by (simp add: bindKey_def case_prod_beta Let_def m1_def)
  also have "\<dots> = map (\<lambda>d. map_option (\<lambda>j. (elems ! j, d)) (m1 (key d))) new"
    by (simp add: zip_map_self comp_def)
  also have "\<dots> = map (\<lambda>d. map_option (\<lambda>old. (old, d)) (List.find (\<lambda>old. key old = key d) elems)) new"
    using slot by simp
  finally show ?thesis .
qed

lemma bindKey_exit:
  assumes "distinct (map key elems)" and "distinct (map key new)"
  shows "j_exit (bindKey elems new)
       = map (\<lambda>old. if key old \<notin> key ` set new then Some old else None) elems"
proof (rule nth_equalityI)
  show "length (j_exit (bindKey elems new))
      = length (map (\<lambda>old. if key old \<notin> key ` set new then Some old else None) elems)"
    by (simp add: bindKey_def case_prod_beta Let_def)
next
  fix j assume "j < length (j_exit (bindKey elems new))"
  then have j: "j < length elems"
    by (simp add: bindKey_def case_prod_beta Let_def)
  define m1 where "m1 = fst (bind_nodes (map key elems) 0 Map.empty)"
  define m2 where "m2 = fst (bind_data (map key new) m1)"
  have dup: "snd (bind_nodes (map key elems) 0 Map.empty) ! j = False"
    using first_loop(1) [OF assms(1)] j by simp
  have m1: "m1 (key (elems ! j)) = Some j"
    using first_loop(2) [OF assms(1)] j by (simp add: m1_def)
  have m2: "m2 (key (elems ! j)) = (if key (elems ! j) \<in> key ` set new then None else Some j)"
    using bind_data_distinct [OF assms(2), of m1] m1 by (simp add: m2_def)
  have "j_exit (bindKey elems new) ! j
      = (if snd (bind_nodes (map key elems) 0 Map.empty) ! j \<or> m2 (key (elems ! j)) = Some j
         then Some (elems ! j) else None)"
    using j by (simp add: bindKey_def case_prod_beta Let_def nth_enumerate_eq m1_def m2_def)
  then show "j_exit (bindKey elems new) ! j
      = map (\<lambda>old. if key old \<notin> key ` set new then Some old else None) elems ! j"
    using dup m2 j by simp
qed

lemma members_update_snd:
  "map snd (members (map (\<lambda>d. map_option (\<lambda>old. (old, d)) (g d)) xs)) = filter (\<lambda>d. g d \<noteq> None) xs"
  by (induction xs) (auto simp: members_def)

lemma members_update_set:
  "(old, d) \<in> set (members (map (\<lambda>d. map_option (\<lambda>old. (old, d)) (g d)) xs)) \<Longrightarrow> g d = Some old"
  by (induction xs) (auto simp: members_def split: option.splits)

subsection \<open>The classification\<close>

text \<open>
  C4. Take a previous generation (the data bound to the elements on screen) and a new
  generation, each with pairwise different keys, the key being the id alone. The join
  puts into the enter selection exactly the new nodes whose key no previous node has, into
  the update selection exactly the new nodes whose key a previous node has (each paired
  with that previous node), and into the exit selection exactly the previous nodes whose
  key no new node has, each in the order of its generation.
\<close>

theorem reconcile_classes:
  assumes prev: "distinct (map key prev)" and new: "distinct (map key new)"
  shows "members (j_enter (bindKey prev new)) = filter (\<lambda>d. key d \<notin> key ` set prev) new
       \<and> map snd (members (j_update (bindKey prev new))) = filter (\<lambda>d. key d \<in> key ` set prev) new
       \<and> members (j_exit (bindKey prev new)) = filter (\<lambda>d. key d \<notin> key ` set new) prev
       \<and> (\<forall>(old, d) \<in> set (members (j_update (bindKey prev new))). old \<in> set prev \<and> key old = key d)"
proof -
  have e: "members (j_enter (bindKey prev new)) = filter (\<lambda>d. key d \<notin> key ` set prev) new"
    by (simp only: bindKey_enter [OF prev new] members_filter)
  have x: "members (j_exit (bindKey prev new)) = filter (\<lambda>d. key d \<notin> key ` set new) prev"
    by (simp only: bindKey_exit [OF prev new] members_filter)
  have found: "List.find (\<lambda>old. key old = key d) prev \<noteq> None \<longleftrightarrow> key d \<in> key ` set prev" for d
    unfolding find_None_iff image_iff by metis
  have u: "map snd (members (j_update (bindKey prev new))) = filter (\<lambda>d. key d \<in> key ` set prev) new"
    by (simp only: bindKey_update [OF prev new] members_update_snd found)
  have p: "old \<in> set prev \<and> key old = key d"
    if "(old, d) \<in> set (members (j_update (bindKey prev new)))" for old d
  proof -
    have "List.find (\<lambda>old. key old = key d) prev = Some old"
      using that unfolding bindKey_update [OF prev new] by (rule members_update_set)
    then show ?thesis
      by (auto simp: find_Some_iff)
  qed
  show ?thesis using e u x p by blast
qed

text \<open>
  Scenario B: replacing \<open>a, b\<close> by \<open>b, c\<close> gives Exiting = [a], Updating = [b] and
  Entering = [c].
\<close>

theorem reconcile_scenario_B:
  "members (j_exit (bindKey [leaf ''a'' 50 100 40, leaf ''b'' 150 100 40]
                            [leaf ''b'' 60 100 30, leaf ''c'' 140 100 50]))
     = [leaf ''a'' 50 100 40]
   \<and> members (j_update (bindKey [leaf ''a'' 50 100 40, leaf ''b'' 150 100 40]
                                [leaf ''b'' 60 100 30, leaf ''c'' 140 100 50]))
     = [(leaf ''b'' 150 100 40, leaf ''b'' 60 100 30)]
   \<and> members (j_enter (bindKey [leaf ''a'' 50 100 40, leaf ''b'' 150 100 40]
                               [leaf ''b'' 60 100 30, leaf ''c'' 140 100 50]))
     = [leaf ''c'' 140 100 50]"
proof -
  let ?prev = "[leaf ''a'' 50 100 40, leaf ''b'' 150 100 40]"
  let ?new = "[leaf ''b'' 60 100 30, leaf ''c'' 140 100 50]"
  have prev: "distinct (map key ?prev)" by (simp add: key_def leaf_def)
  have new: "distinct (map key ?new)" by (simp add: key_def leaf_def)
  have ka: "key (leaf ''a'' 50 100 40) = ''ga''" and kb: "key (leaf ''b'' 150 100 40) = ''gb''"
    and kb': "key (leaf ''b'' 60 100 30) = ''gb''" and kc: "key (leaf ''c'' 140 100 50) = ''gc''"
    by (simp_all add: key_def leaf_def)
  note r = reconcile_classes [OF prev new]
  have e: "members (j_enter (bindKey ?prev ?new)) = [leaf ''c'' 140 100 50]"
    using r by (simp add: ka kb kb' kc)
  have x: "members (j_exit (bindKey ?prev ?new)) = [leaf ''a'' 50 100 40]"
    using r by (simp add: ka kb kb' kc)
  have us: "map snd (members (j_update (bindKey ?prev ?new))) = [leaf ''b'' 60 100 30]"
    using r by (simp add: ka kb kb' kc)
  then obtain old where u1: "members (j_update (bindKey ?prev ?new)) = [(old, leaf ''b'' 60 100 30)]"
    by (cases "members (j_update (bindKey ?prev ?new))") auto
  then have "old \<in> set ?prev \<and> key old = ''gb''"
    using r by (simp add: kb')
  then have "old = leaf ''b'' 150 100 40"
    using ka by auto
  with e x u1 show ?thesis by simp
qed


text \<open>
  The same cycle as \<open>update\<close> runs it on the circles, where the new generation starts
  with the synthetic root: the root has no circle yet and stands in the enter selection
  (\<open>update\<close> drops it there, since it has children).
\<close>

lemma bindKey_B:
  "bindKey prevB newB =
     \<lparr>j_update = [None, Some (leaf ''b'' 150 100 40, leaf ''b'' 60 100 30), None],
      j_enter = [Some root200, None, Some (leaf ''c'' 140 100 50)],
      j_exit = [Some (leaf ''a'' 50 100 40), None]\<rparr>"
  by (simp add: bindKey_def prevB_def newB_def key_def leaf_def root200_def enumerate_eq_zip)



section \<open>Properties of the transitions\<close>

subsection \<open>What update schedules\<close>

lemma update_circles_slots:
  assumes "i < length new"
  shows "s_update (update_circles cfg color circles new) ! i
       = map_option (\<lambda>(old, d). update_circle cfg color i d) (j_update (bindKey circles new) ! i)"
    and "s_enter (update_circles cfg color circles new) ! i
       = (case j_enter (bindKey circles new) ! i of
            None \<Rightarrow> None
          | Some d \<Rightarrow> if \<not> children d then Some (enter_circle_init cfg color d, enter_circle cfg d)
                      else None)"
proof -
  have ne: "new \<noteq> []" using assms by auto
  show "s_update (update_circles cfg color circles new) ! i
       = map_option (\<lambda>(old, d). update_circle cfg color i d) (j_update (bindKey circles new) ! i)"
    using assms by (simp add: update_circles_def Let_def on_update_slot bindKey_lengths)
  show "s_enter (update_circles cfg color circles new) ! i
       = (case j_enter (bindKey circles new) ! i of
            None \<Rightarrow> None
          | Some d \<Rightarrow> if \<not> children d then Some (enter_circle_init cfg color d, enter_circle cfg d)
                      else None)"
    using assms ne by (simp add: update_circles_def Let_def bindKey_lengths)
qed

lemma update_circles_exit_slot:
  assumes "j < length circles"
  shows "s_exit (update_circles cfg color circles new) ! j
       = map_option (exit_circle cfg) (j_exit (bindKey circles new) ! j)"
  using assms by (simp add: update_circles_def Let_def bindKey_lengths)

lemma update_labels_slots:
  assumes "i < length new"
  shows "s_update (update_labels cfg textColor labels new) ! i
       = map_option (\<lambda>(old, d). update_label cfg textColor i d) (j_update (bindKey labels new) ! i)"
    and "s_enter (update_labels cfg textColor labels new) ! i
       = map_option (\<lambda>d. (enter_label_init cfg textColor d, enter_label cfg d))
           (j_enter (bindKey labels new) ! i)"
proof -
  have ne: "new \<noteq> []" using assms by auto
  show "s_update (update_labels cfg textColor labels new) ! i
       = map_option (\<lambda>(old, d). update_label cfg textColor i d) (j_update (bindKey labels new) ! i)"
    using assms by (simp add: update_labels_def Let_def on_update_slot bindKey_lengths)
  show "s_enter (update_labels cfg textColor labels new) ! i
       = map_option (\<lambda>d. (enter_label_init cfg textColor d, enter_label cfg d))
           (j_enter (bindKey labels new) ! i)"
    using assms ne by (simp add: update_labels_def Let_def bindKey_lengths)
qed

lemma update_labels_exit_slot:
  assumes "j < length labels"
  shows "s_exit (update_labels cfg textColor labels new) ! j
       = map_option (exit_label cfg) (j_exit (bindKey labels new) ! j)"
  using assms by (simp add: update_labels_def Let_def bindKey_lengths)

text \<open>What stands in a slot of the schedule.\<close>

lemma circle_update_is:
  assumes "i < length new" and "s_update (update_circles cfg color circles new) ! i = Some t"
  shows "t = update_circle cfg color i (new ! i)"
proof -
  obtain old d where u: "j_update (bindKey circles new) ! i = Some (old, d)"
    and t: "t = update_circle cfg color i d"
    using assms by (auto simp: update_circles_slots)
  show ?thesis using j_update_slot [OF assms(1) u] t by simp
qed

lemma label_update_is:
  assumes "i < length new" and "s_update (update_labels cfg textColor labels new) ! i = Some t"
  shows "t = update_label cfg textColor i (new ! i)"
proof -
  obtain old d where u: "j_update (bindKey labels new) ! i = Some (old, d)"
    and t: "t = update_label cfg textColor i d"
    using assms by (auto simp: update_labels_slots)
  show ?thesis using j_update_slot [OF assms(1) u] t by simp
qed

lemma circle_enter_is:
  assumes "i < length new" and "s_enter (update_circles cfg color circles new) ! i = Some (init, t)"
  shows "init = enter_circle_init cfg color (new ! i) \<and> t = enter_circle cfg (new ! i)"
proof -
  obtain d where e: "j_enter (bindKey circles new) ! i = Some d"
    and t: "init = enter_circle_init cfg color d" "t = enter_circle cfg d"
    using assms by (auto simp: update_circles_slots split: option.splits if_splits)
  show ?thesis using j_enter_slot [OF assms(1) e] t by simp
qed

lemma label_enter_is:
  assumes "i < length new" and "s_enter (update_labels cfg textColor labels new) ! i = Some (init, t)"
  shows "init = enter_label_init cfg textColor (new ! i) \<and> t = enter_label cfg (new ! i)"
proof -
  obtain d where e: "j_enter (bindKey labels new) ! i = Some d"
    and t: "init = enter_label_init cfg textColor d" "t = enter_label cfg d"
    using assms by (auto simp: update_labels_slots)
  show ?thesis using j_enter_slot [OF assms(1) e] t by simp
qed

lemma circle_exit_is:
  assumes "j < length circles" and "s_exit (update_circles cfg color circles new) ! j = Some t"
  shows "t = exit_circle cfg (circles ! j)"
proof -
  obtain old where x: "j_exit (bindKey circles new) ! j = Some old" and t: "t = exit_circle cfg old"
    using assms by (auto simp: update_circles_exit_slot)
  show ?thesis using j_exit_slot [OF assms(1) x] t by simp
qed

lemma label_exit_is:
  assumes "j < length labels" and "s_exit (update_labels cfg textColor labels new) ! j = Some t"
  shows "t = exit_label cfg (labels ! j)"
proof -
  obtain old where x: "j_exit (bindKey labels new) ! j = Some old" and t: "t = exit_label cfg old"
    using assms by (auto simp: update_labels_exit_slot)
  show ?thesis using j_exit_slot [OF assms(1) x] t by simp
qed

text \<open>
  C6, as the code has it. The transition of an updating element (circle or label) has the
  configured duration and the delay \<open>index * delay\<close>, where index is the position of its
  node in the new generation. The transition of an entering element has 1.2 times the
  configured duration and no delay; the transition of an exiting element has the
  configured duration and no delay. The configured duration defaults to 500 and the
  delay per node to 7.
\<close>

theorem transition_timing:
  "(\<forall>i t. i < length new \<and> s_update (update_circles cfg color circles new) ! i = Some t
      \<longrightarrow> t_duration t = duration cfg \<and> t_delay t = real i * delay cfg)
   \<and> (\<forall>i t. i < length new \<and> s_update (update_labels cfg textColor labels new) ! i = Some t
      \<longrightarrow> t_duration t = duration cfg \<and> t_delay t = real i * delay cfg)
   \<and> (\<forall>i init t. i < length new \<and> s_enter (update_circles cfg color circles new) ! i = Some (init, t)
      \<longrightarrow> t_duration t = duration cfg * 1.2 \<and> t_delay t = 0)
   \<and> (\<forall>i init t. i < length new \<and> s_enter (update_labels cfg textColor labels new) ! i = Some (init, t)
      \<longrightarrow> t_duration t = duration cfg * 1.2 \<and> t_delay t = 0)
   \<and> (\<forall>j t. j < length circles \<and> s_exit (update_circles cfg color circles new) ! j = Some t
      \<longrightarrow> t_duration t = duration cfg \<and> t_delay t = 0)
   \<and> (\<forall>j t. j < length labels \<and> s_exit (update_labels cfg textColor labels new) ! j = Some t
      \<longrightarrow> t_duration t = duration cfg \<and> t_delay t = 0)
   \<and> (props_duration p = None \<longrightarrow> duration (constructor p w h) = 500)
   \<and> (props_delay p = None \<longrightarrow> delay (constructor p w h) = 7)"
proof (intro conjI allI impI)
  fix i t assume "i < length new \<and> s_update (update_circles cfg color circles new) ! i = Some t"
  then have "t = update_circle cfg color i (new ! i)" using circle_update_is by blast
  then show "t_duration t = duration cfg" "t_delay t = real i * delay cfg"
    by (simp_all add: update_circle_def)
next
  fix i t assume "i < length new \<and> s_update (update_labels cfg textColor labels new) ! i = Some t"
  then have "t = update_label cfg textColor i (new ! i)" using label_update_is by blast
  then show "t_duration t = duration cfg" "t_delay t = real i * delay cfg"
    by (simp_all add: update_label_def)
next
  fix i init t
  assume "i < length new \<and> s_enter (update_circles cfg color circles new) ! i = Some (init, t)"
  then have "t = enter_circle cfg (new ! i)" using circle_enter_is by blast
  then show "t_duration t = duration cfg * 1.2" "t_delay t = 0"
    by (simp_all add: enter_circle_def)
next
  fix i init t
  assume "i < length new \<and> s_enter (update_labels cfg textColor labels new) ! i = Some (init, t)"
  then have "t = enter_label cfg (new ! i)" using label_enter_is by blast
  then show "t_duration t = duration cfg * 1.2" "t_delay t = 0"
    by (simp_all add: enter_label_def)
next
  fix j t assume "j < length circles \<and> s_exit (update_circles cfg color circles new) ! j = Some t"
  then have "t = exit_circle cfg (circles ! j)" using circle_exit_is by blast
  then show "t_duration t = duration cfg" "t_delay t = 0"
    by (simp_all add: exit_circle_def)
next
  fix j t assume "j < length labels \<and> s_exit (update_labels cfg textColor labels new) ! j = Some t"
  then have "t = exit_label cfg (labels ! j)" using label_exit_is by blast
  then show "t_duration t = duration cfg" "t_delay t = 0"
    by (simp_all add: exit_label_def)
next
  assume "props_duration p = None"
  then show "duration (constructor p w h) = 500" by (simp add: constructor_def)
next
  assume "props_delay p = None"
  then show "delay (constructor p w h) = 7" by (simp add: constructor_def)
qed

text \<open>The schedule of the cycle of scenario B on a canvas of side 200.\<close>

lemma schedule_B:
  "s_update (update_circles cfg color prevB newB)
     = [None, Some (update_circle cfg color 1 (leaf ''b'' 60 100 30)), None]"
  "s_enter (update_circles cfg color prevB newB)
     = [None, None, Some (enter_circle_init cfg color (leaf ''c'' 140 100 50),
                          enter_circle cfg (leaf ''c'' 140 100 50))]"
  "s_exit (update_circles cfg color prevB newB) = [Some (exit_circle cfg (leaf ''a'' 50 100 40)), None]"
  "s_enter (update_labels cfg color prevB newB)
     = [Some (enter_label_init cfg color root200, enter_label cfg root200), None,
        Some (enter_label_init cfg color (leaf ''c'' 140 100 50), enter_label cfg (leaf ''c'' 140 100 50))]"
  "s_exit (update_labels cfg color prevB newB) = [Some (exit_label cfg (leaf ''a'' 50 100 40)), None]"
proof -
  have ne: "0 < length newB" by (simp add: newB_def)
  show "s_update (update_circles cfg color prevB newB)
     = [None, Some (update_circle cfg color 1 (leaf ''b'' 60 100 30)), None]"
    by (simp add: update_circles_def bindKey_B on_update_def enumerate_eq_zip)
  show "s_enter (update_circles cfg color prevB newB)
     = [None, None, Some (enter_circle_init cfg color (leaf ''c'' 140 100 50),
                          enter_circle cfg (leaf ''c'' 140 100 50))]"
    using ne by (simp add: update_circles_def bindKey_B) (simp add: root200_def leaf_def)
  show "s_exit (update_circles cfg color prevB newB) = [Some (exit_circle cfg (leaf ''a'' 50 100 40)), None]"
    by (simp add: update_circles_def bindKey_B)
  show "s_enter (update_labels cfg color prevB newB)
     = [Some (enter_label_init cfg color root200, enter_label cfg root200), None,
        Some (enter_label_init cfg color (leaf ''c'' 140 100 50), enter_label cfg (leaf ''c'' 140 100 50))]"
    using ne by (simp add: update_labels_def bindKey_B)
  show "s_exit (update_labels cfg color prevB newB) = [Some (exit_label cfg (leaf ''a'' 50 100 40)), None]"
    by (simp add: update_labels_def bindKey_B)
qed

text \<open>With the defaults, the updating circle of \<open>b\<close>, at index 1, runs 500 after a delay of 7.\<close>

theorem transition_timing_example:
  "map (map_option (\<lambda>t. (t_duration t, t_delay t)))
       (s_update (update_circles (constructor no_props 200 200) two_colors prevB newB))
     = [None, Some (500, 7), None]
   \<and> duration (constructor no_props 200 200) = 500
   \<and> delay (constructor no_props 200 200) = 7"
proof -
  let ?cfg = "constructor no_props 200 200"
  let ?t = "update_circle ?cfg two_colors 1 (leaf ''b'' 60 100 30)"
  have s: "s_update (update_circles ?cfg two_colors prevB newB) = [None, Some ?t, None]"
    by (rule schedule_B)
  have n: "props_duration no_props = None" "props_delay no_props = None"
    by (simp_all add: no_props_def)
  have len: "length newB = 3" by (simp add: newB_def)
  have h: "1 < length newB \<and> s_update (update_circles ?cfg two_colors prevB newB) ! 1 = Some ?t"
    by (simp add: s len)
  note T = transition_timing [of newB ?cfg two_colors prevB two_colors prevB no_props 200 200]
  have d: "duration ?cfg = 500" "delay ?cfg = 7" using T n by blast+
  have "t_duration ?t = duration ?cfg \<and> t_delay ?t = real 1 * delay ?cfg" using T h by blast
  then show ?thesis using d by (simp add: s)
qed

text \<open>
  C6 as stated fails for entering transitions: with the defaults, the circle of the
  entering node \<open>c\<close>, at index 2 of the new generation, runs 600 (not 500) with no delay
  (not 14).
\<close>

theorem transition_timing_enter_counterexample:
  "duration (constructor no_props 200 200) = 500
   \<and> delay (constructor no_props 200 200) = 7
   \<and> newB ! 2 = leaf ''c'' 140 100 50
   \<and> s_enter (update_circles (constructor no_props 200 200) two_colors prevB newB) ! 2
       = Some (enter_circle_init (constructor no_props 200 200) two_colors (leaf ''c'' 140 100 50),
               enter_circle (constructor no_props 200 200) (leaf ''c'' 140 100 50))
   \<and> t_duration (enter_circle (constructor no_props 200 200) (leaf ''c'' 140 100 50)) = 600
   \<and> t_delay (enter_circle (constructor no_props 200 200) (leaf ''c'' 140 100 50)) = 0"
  by (simp add: schedule_B) (simp add: enter_circle_def constructor_def no_props_def newB_def)


text \<open>
  C5, as the code has it. An entering circle is created with radius 0 at the final
  position of its node, and its transition drives the radius to the node's radius and the
  opacity to 1, with the position it already has as the target. An entering label is
  created with opacity 0 in its final box (the square of side \<open>2 r\<close> around the node's
  centre), and its transition drives the opacity to 1 and the font size to
  \<open>fontSizeFactor * r\<close> when a font size factor is configured, nothing else: no position.
\<close>

theorem entering_start:
  "(\<forall>i init t. i < length new \<and> s_enter (update_circles cfg color circles new) ! i = Some (init, t)
      \<longrightarrow> map_of init R = Some (Num 0)
        \<and> map_of init Transform = Some (Translate (node_x (new ! i)) (node_y (new ! i)))
        \<and> t_targets t = [(Transform, Translate (node_x (new ! i)) (node_y (new ! i))),
                         (R, Num (node_r (new ! i))),
                         (Opacity, Num 1)])
   \<and> (\<forall>i init t. i < length new \<and> s_enter (update_labels cfg textColor labels new) ! i = Some (init, t)
      \<longrightarrow> map_of init Opacity = Some (Num 0)
        \<and> map_of init Left = Some (Px (node_x (new ! i) - node_r (new ! i)))
        \<and> map_of init Top = Some (Px (node_y (new ! i) - node_r (new ! i)))
        \<and> map_of init Width = Some (Px (2 * node_r (new ! i)))
        \<and> map_of init Height = Some (Px (2 * node_r (new ! i)))
        \<and> t_targets t = [(Opacity, Num 1), (FontSize, fontSize cfg (new ! i))]
        \<and> (fontSizeFactor cfg = None \<longrightarrow> fontSize cfg (new ! i) = Null))"
proof (intro conjI allI impI)
  fix i init t
  assume "i < length new \<and> s_enter (update_circles cfg color circles new) ! i = Some (init, t)"
  then have "init = enter_circle_init cfg color (new ! i) \<and> t = enter_circle cfg (new ! i)"
    using circle_enter_is by blast
  then show "map_of init R = Some (Num 0)"
    and "map_of init Transform = Some (Translate (node_x (new ! i)) (node_y (new ! i)))"
    and "t_targets t = [(Transform, Translate (node_x (new ! i)) (node_y (new ! i))),
                        (R, Num (node_r (new ! i))), (Opacity, Num 1)]"
    by (simp_all add: enter_circle_init_def enter_circle_def)
next
  fix i init t
  assume "i < length new \<and> s_enter (update_labels cfg textColor labels new) ! i = Some (init, t)"
  then have "init = enter_label_init cfg textColor (new ! i) \<and> t = enter_label cfg (new ! i)"
    using label_enter_is by blast
  then show "map_of init Opacity = Some (Num 0)"
    and "map_of init Left = Some (Px (node_x (new ! i) - node_r (new ! i)))"
    and "map_of init Top = Some (Px (node_y (new ! i) - node_r (new ! i)))"
    and "map_of init Width = Some (Px (2 * node_r (new ! i)))"
    and "map_of init Height = Some (Px (2 * node_r (new ! i)))"
    and "t_targets t = [(Opacity, Num 1), (FontSize, fontSize cfg (new ! i))]"
    by (simp_all add: enter_label_init_def enter_label_def)
next
  fix i init t
  assume "fontSizeFactor cfg = None"
  then show "fontSize cfg (new ! i) = Null" by (simp add: fontSize_def)
qed

text \<open>The entering node \<open>c\<close> of scenario B, without a font size factor.\<close>

theorem entering_start_example:
  "map_of (enter_circle_init (constructor no_props 200 200) two_colors (leaf ''c'' 140 100 50)) R
     = Some (Num 0)
   \<and> map_of (enter_circle_init (constructor no_props 200 200) two_colors (leaf ''c'' 140 100 50)) Transform
     = Some (Translate 140 100)
   \<and> t_targets (enter_circle (constructor no_props 200 200) (leaf ''c'' 140 100 50))
     = [(Transform, Translate 140 100), (R, Num 50), (Opacity, Num 1)]
   \<and> map_of (enter_label_init (constructor no_props 200 200) two_colors (leaf ''c'' 140 100 50)) Opacity
     = Some (Num 0)
   \<and> t_targets (enter_label (constructor no_props 200 200) (leaf ''c'' 140 100 50))
     = [(Opacity, Num 1), (FontSize, Null)]"
proof -
  let ?cfg = "constructor no_props 200 200"
  let ?c = "leaf ''c'' 140 100 50"
  have len: "length newB = 3" and c: "newB ! 2 = ?c" by (simp_all add: newB_def)
  have hc: "2 < length newB \<and> s_enter (update_circles ?cfg two_colors prevB newB) ! 2
              = Some (enter_circle_init ?cfg two_colors ?c, enter_circle ?cfg ?c)"
    by (simp add: schedule_B len)
  have hl: "2 < length newB \<and> s_enter (update_labels ?cfg two_colors prevB newB) ! 2
              = Some (enter_label_init ?cfg two_colors ?c, enter_label ?cfg ?c)"
    by (simp add: schedule_B len)
  have f: "fontSizeFactor ?cfg = None" by (simp add: constructor_def no_props_def)
  note E = entering_start [of newB ?cfg two_colors prevB two_colors prevB]
  have "map_of (enter_circle_init ?cfg two_colors ?c) R = Some (Num 0)
      \<and> map_of (enter_circle_init ?cfg two_colors ?c) Transform
          = Some (Translate (node_x (newB ! 2)) (node_y (newB ! 2)))
      \<and> t_targets (enter_circle ?cfg ?c)
          = [(Transform, Translate (node_x (newB ! 2)) (node_y (newB ! 2))),
             (R, Num (node_r (newB ! 2))), (Opacity, Num 1)]"
    using E hc by blast
  moreover have "map_of (enter_label_init ?cfg two_colors ?c) Opacity = Some (Num 0)
      \<and> t_targets (enter_label ?cfg ?c) = [(Opacity, Num 1), (FontSize, fontSize ?cfg (newB ! 2))]
      \<and> fontSize ?cfg (newB ! 2) = Null"
    using E hl f by blast
  ultimately show ?thesis by (simp add: c) (simp add: leaf_def)
qed

text \<open>
  C5 as stated fails on "only radius/opacity": with \<open>fontSizeFactor\<close> 2 the transition of
  the entering label of \<open>c\<close> (radius 50) also drives the font size, which the label was
  not created with, to 100 pixels.
\<close>

theorem entering_font_size_counterexample:
  "fontSizeFactor (constructor (no_props\<lparr>props_fontSizeFactor := Some 2\<rparr>) 200 200) = Some 2
   \<and> s_enter (update_labels (constructor (no_props\<lparr>props_fontSizeFactor := Some 2\<rparr>) 200 200)
               two_colors prevB newB) ! 2
       = Some (enter_label_init (constructor (no_props\<lparr>props_fontSizeFactor := Some 2\<rparr>) 200 200)
                 two_colors (leaf ''c'' 140 100 50),
               enter_label (constructor (no_props\<lparr>props_fontSizeFactor := Some 2\<rparr>) 200 200)
                 (leaf ''c'' 140 100 50))
   \<and> map_of (enter_label_init (constructor (no_props\<lparr>props_fontSizeFactor := Some 2\<rparr>) 200 200)
               two_colors (leaf ''c'' 140 100 50)) FontSize = None
   \<and> target FontSize (enter_label (constructor (no_props\<lparr>props_fontSizeFactor := Some 2\<rparr>) 200 200)
               (leaf ''c'' 140 100 50)) = Some (Px 100)"
  by (simp add: schedule_B)
    (simp add: enter_label_def enter_label_init_def target_def fontSize_def constructor_def
      no_props_def leaf_def)

subsection \<open>The exit trajectory\<close>

text \<open>
  The angle of \<open>atan2\<close> is the direction of the point: its cosine and sine are the
  coordinates of the point divided by its distance from the origin.
\<close>

lemma inv_sqrt_slope:
  fixes dx dy :: real
  assumes "dx \<noteq> 0"
  shows "1 / sqrt (1 + (dy / dx)\<^sup>2) = \<bar>dx\<bar> / sqrt (dx\<^sup>2 + dy\<^sup>2)"
proof -
  have "1 + (dy / dx)\<^sup>2 = (dx\<^sup>2 + dy\<^sup>2) / dx\<^sup>2"
    using assms by (simp add: power_divide field_simps)
  then have "sqrt (1 + (dy / dx)\<^sup>2) = sqrt (dx\<^sup>2 + dy\<^sup>2) / \<bar>dx\<bar>"
    by (simp add: real_sqrt_divide)
  then show ?thesis by simp
qed

lemma cos_atan2:
  assumes "dx \<noteq> 0 \<or> dy \<noteq> 0"
  shows "cos (atan2 dy dx) = dx / sqrt (dx\<^sup>2 + dy\<^sup>2)"
proof -
  consider "dx > 0" | "dx < 0" "dy \<ge> 0" | "dx < 0" "dy < 0" | "dx = 0" "dy > 0" | "dx = 0" "dy < 0"
    using assms by linarith
  then show ?thesis
  proof cases
    case 1
    then show ?thesis
      using inv_sqrt_slope [of dx dy] by (simp add: atan2_def cos_arctan)
  next
    case 2
    then show ?thesis
      using inv_sqrt_slope [of dx dy] by (simp add: atan2_def cos_arctan)
  next
    case 3
    then show ?thesis
      using inv_sqrt_slope [of dx dy] by (simp add: atan2_def cos_arctan)
  next
    case 4
    then show ?thesis by (simp add: atan2_def)
  next
    case 5
    then show ?thesis by (simp add: atan2_def)
  qed
qed

lemma sin_atan2:
  assumes "dx \<noteq> 0 \<or> dy \<noteq> 0"
  shows "sin (atan2 dy dx) = dy / sqrt (dx\<^sup>2 + dy\<^sup>2)"
proof -
  consider "dx > 0" | "dx < 0" "dy \<ge> 0" | "dx < 0" "dy < 0" | "dx = 0" "dy > 0" | "dx = 0" "dy < 0"
    using assms by linarith
  then show ?thesis
  proof cases
    case 1
    have "sin (arctan (dy / dx)) = dy / dx * (1 / sqrt (1 + (dy / dx)\<^sup>2))"
      by (simp add: sin_arctan)
    then show ?thesis
      using 1 inv_sqrt_slope [of dx dy] by (simp add: atan2_def)
  next
    case 2
    have "sin (arctan (dy / dx)) = dy / dx * (1 / sqrt (1 + (dy / dx)\<^sup>2))"
      by (simp add: sin_arctan)
    then show ?thesis
      using 2 inv_sqrt_slope [of dx dy] by (simp add: atan2_def)
  next
    case 3
    have "sin (arctan (dy / dx)) = dy / dx * (1 / sqrt (1 + (dy / dx)\<^sup>2))"
      by (simp add: sin_arctan)
    then show ?thesis
      using 3 inv_sqrt_slope [of dx dy] by (simp add: atan2_def)
  next
    case 4
    then show ?thesis by (simp add: atan2_def)
  next
    case 5
    then show ?thesis by (simp add: atan2_def)
  qed
qed

text \<open>
  So the destination of an exiting node lies on the circle inscribed in the canvas, and,
  for a node off the centre, on the ray from the centre through the node.
\<close>

lemma dest_on_circle:
  "(destX cfg d - diameter cfg / 2)\<^sup>2 + (destY cfg d - diameter cfg / 2)\<^sup>2 = (diameter cfg / 2)\<^sup>2"
proof -
  define th where "th = atan2 (node_y d - diameter cfg / 2) (node_x d - diameter cfg / 2)"
  have x: "destX cfg d - diameter cfg / 2 = diameter cfg / 2 * cos th"
    by (simp add: destX_def Let_def th_def field_simps)
  have y: "destY cfg d - diameter cfg / 2 = diameter cfg / 2 * sin th"
    by (simp add: destY_def Let_def th_def field_simps)
  have "(diameter cfg / 2 * cos th)\<^sup>2 + (diameter cfg / 2 * sin th)\<^sup>2
      = (diameter cfg / 2)\<^sup>2 * ((cos th)\<^sup>2 + (sin th)\<^sup>2)"
    by (simp only: power_mult_distrib distrib_left)
  also have "\<dots> = (diameter cfg / 2)\<^sup>2" by simp
  finally show ?thesis unfolding x y .
qed

lemma dest_on_ray:
  assumes "node_x d \<noteq> diameter cfg / 2 \<or> node_y d \<noteq> diameter cfg / 2"
  defines "dx \<equiv> node_x d - diameter cfg / 2" and "dy \<equiv> node_y d - diameter cfg / 2"
  shows "destX cfg d = diameter cfg / 2 + diameter cfg / 2 * (dx / sqrt (dx\<^sup>2 + dy\<^sup>2))"
    and "destY cfg d = diameter cfg / 2 + diameter cfg / 2 * (dy / sqrt (dx\<^sup>2 + dy\<^sup>2))"
proof -
  have nz: "dx \<noteq> 0 \<or> dy \<noteq> 0" using assms(1) by (simp add: dx_def dy_def)
  have x: "destX cfg d = diameter cfg / 2 + diameter cfg / 2 * cos (atan2 dy dx)"
    by (simp add: destX_def Let_def dx_def dy_def distrib_left add_divide_distrib)
  have y: "destY cfg d = diameter cfg / 2 + diameter cfg / 2 * sin (atan2 dy dx)"
    by (simp add: destY_def Let_def dx_def dy_def distrib_left add_divide_distrib)
  show "destX cfg d = diameter cfg / 2 + diameter cfg / 2 * (dx / sqrt (dx\<^sup>2 + dy\<^sup>2))"
    by (simp only: x cos_atan2 [OF nz])
  show "destY cfg d = diameter cfg / 2 + diameter cfg / 2 * (dy / sqrt (dx\<^sup>2 + dy\<^sup>2))"
    by (simp only: y sin_atan2 [OF nz])
qed

text \<open>
  C3. Every exiting circle, last bound to a node at \<open>(x, y)\<close>, on a canvas of side \<open>D\<close>,
  is sent to \<open>(D * (1 + cos theta) / 2, D * (1 + sin theta) / 2)\<close> with
  \<open>theta = atan2(y - D / 2, x - D / 2)\<close> while its radius goes to 0, and is then removed;
  every exiting label is sent to the same point (its \<open>left\<close> and \<open>top\<close>) while its
  opacity, width and height go to 0, and is then removed.
\<close>

theorem exit_trajectory:
  "(\<forall>j t. j < length circles \<and> s_exit (update_circles cfg color circles new) ! j = Some t
      \<longrightarrow> (let D = diameter cfg;
               theta = atan2 (node_y (circles ! j) - D / 2) (node_x (circles ! j) - D / 2)
           in t_targets t = [(Transform, Translate (D * (1 + cos theta) / 2) (D * (1 + sin theta) / 2)),
                             (R, Num 0)]
              \<and> t_remove t))
   \<and> (\<forall>j t. j < length labels \<and> s_exit (update_labels cfg textColor labels new) ! j = Some t
      \<longrightarrow> (let D = diameter cfg;
               theta = atan2 (node_y (labels ! j) - D / 2) (node_x (labels ! j) - D / 2)
           in t_targets t = [(Top, Px (D * (1 + sin theta) / 2)),
                             (Left, Px (D * (1 + cos theta) / 2)),
                             (Opacity, Num 0), (Width, Num 0), (Height, Num 0)]
              \<and> t_remove t))"
proof (intro conjI allI impI)
  fix j t assume "j < length circles \<and> s_exit (update_circles cfg color circles new) ! j = Some t"
  then have "t = exit_circle cfg (circles ! j)" using circle_exit_is by blast
  then show "let D = diameter cfg;
               theta = atan2 (node_y (circles ! j) - D / 2) (node_x (circles ! j) - D / 2)
           in t_targets t = [(Transform, Translate (D * (1 + cos theta) / 2) (D * (1 + sin theta) / 2)),
                             (R, Num 0)]
              \<and> t_remove t"
    by (simp add: exit_circle_def destX_def destY_def Let_def)
next
  fix j t assume "j < length labels \<and> s_exit (update_labels cfg textColor labels new) ! j = Some t"
  then have "t = exit_label cfg (labels ! j)" using label_exit_is by blast
  then show "let D = diameter cfg;
               theta = atan2 (node_y (labels ! j) - D / 2) (node_x (labels ! j) - D / 2)
           in t_targets t = [(Top, Px (D * (1 + sin theta) / 2)),
                             (Left, Px (D * (1 + cos theta) / 2)),
                             (Opacity, Num 0), (Width, Num 0), (Height, Num 0)]
              \<and> t_remove t"
    by (simp add: exit_label_def destX_def destY_def Let_def)
qed

text \<open>On the canvas of side 200 the node \<open>a\<close> at (50, 100) leaves towards (0, 100).\<close>

theorem exit_trajectory_example:
  "s_exit (update_circles (constructor no_props 200 200) two_colors prevB newB) ! 0
     = Some (exit_circle (constructor no_props 200 200) (leaf ''a'' 50 100 40))
   \<and> t_targets (exit_circle (constructor no_props 200 200) (leaf ''a'' 50 100 40))
     = [(Transform, Translate 0 100), (R, Num 0)]
   \<and> t_remove (exit_circle (constructor no_props 200 200) (leaf ''a'' 50 100 40))"
proof -
  let ?cfg = "constructor no_props 200 200"
  let ?a = "leaf ''a'' 50 100 40"
  have len: "length prevB = 2" and a: "prevB ! 0 = ?a" by (simp_all add: prevB_def)
  have h: "0 < length prevB \<and> s_exit (update_circles ?cfg two_colors prevB newB) ! 0
             = Some (exit_circle ?cfg ?a)"
    by (simp add: schedule_B len)
  have D: "diameter ?cfg = 200" by (simp add: constructor_def)
  have th: "atan2 (node_y ?a - 100) (node_x ?a - 100) = pi"
    by (simp add: atan2_def leaf_def)
  have "let D = diameter ?cfg;
            theta = atan2 (node_y (prevB ! 0) - D / 2) (node_x (prevB ! 0) - D / 2)
        in t_targets (exit_circle ?cfg ?a)
             = [(Transform, Translate (D * (1 + cos theta) / 2) (D * (1 + sin theta) / 2)), (R, Num 0)]
           \<and> t_remove (exit_circle ?cfg ?a)"
    using exit_trajectory [of prevB ?cfg two_colors newB prevB two_colors] h by blast
  then show ?thesis
    using h by (simp add: Let_def a D th)
qed


end
